theory Spec2Isabelle
  imports Complex_Main "HOL-Library.Char_ord" "HOL-Library.List_Lexorder"
    "HOL-Library.Product_Lexorder" "HOL-Library.Multiset"
begin

section \<open>The browser-side photo cache (src/lib/photo-cache.ts)\<close>

text \<open>
  The cache keeps one \<open>CachedPhoto\<close> per key in an IndexedDB object store whose key path is
  \<open>key\<close>, with a secondary index on \<open>timestamp\<close>. Strings are byte lists (a data URL is
  ASCII), so the size of \<open>new Blob([dataUrl])\<close> is the length of the string. Timestamps are
  the integer milliseconds of \<open>Date.now()\<close>, taken as a parameter \<open>now\<close> of each operation.
\<close>

definition MAX_CACHE_SIZE_MB :: nat where
  "MAX_CACHE_SIZE_MB = 100"

definition CACHE_EXPIRY_DAYS :: real where
  "CACHE_EXPIRY_DAYS = 7"

definition maxSizeBytes :: nat where
  "maxSizeBytes = MAX_CACHE_SIZE_MB * 1024 * 1024"

record CachedPhoto =
  key :: string
  dataUrl :: string
  timestamp :: int
  sizeBytes :: nat

text \<open>The object store: the records it holds, at most one per key.\<close>

type_synonym store = "CachedPhoto list"

definition mk_key :: "string \<Rightarrow> string \<Rightarrow> string" where
  "mk_key inspectionId photoId = inspectionId @ '':'' @ photoId"

definition blob_size :: "string \<Rightarrow> nat" where
  "blob_size s = length s"

definition store_get :: "store \<Rightarrow> string \<Rightarrow> CachedPhoto option" where
  "store_get st k = find (\<lambda>c. key c = k) st"

text \<open>\<open>store.put\<close> replaces the record of the same key, \<open>store.delete\<close> removes it.\<close>

definition store_put :: "store \<Rightarrow> CachedPhoto \<Rightarrow> store" where
  "store_put st c = c # filter (\<lambda>x. key x \<noteq> key c) st"

definition store_delete :: "store \<Rightarrow> string \<Rightarrow> store" where
  "store_delete st k = filter (\<lambda>x. key x \<noteq> k) st"

text \<open>\<open>photos.reduce((sum, p) => sum + p.sizeBytes, 0)\<close> over \<open>store.getAll()\<close>.\<close>

definition total_size :: "store \<Rightarrow> nat" where
  "total_size st = sum_list (map sizeBytes st)"

text \<open>
  A cursor on the \<open>timestamp\<close> index visits the records by ascending timestamp, records of
  one timestamp by ascending primary key.
\<close>

definition index_cursor :: "store \<Rightarrow> CachedPhoto list" where
  "index_cursor st = sort_key (\<lambda>c. (timestamp c, key c)) st"

text \<open>
  The cursor loop of \<open>cleanOldest\<close>: while there is a record under the cursor and
  \<open>freedBytes < neededBytes\<close>, add its size to \<open>freedBytes\<close>, delete it and continue.
  The result is the records deleted, in the order of deletion, and the records left.
\<close>

fun clean_loop :: "nat \<Rightarrow> nat \<Rightarrow> CachedPhoto list \<Rightarrow> CachedPhoto list \<times> CachedPhoto list" where
  "clean_loop neededBytes freedBytes [] = ([], [])"
| "clean_loop neededBytes freedBytes (c # cs) =
     (if freedBytes < neededBytes
      then (case clean_loop neededBytes (freedBytes + sizeBytes c) cs of
              (deleted, left) \<Rightarrow> (c # deleted, left))
      else ([], c # cs))"

subsection \<open>Failures of the medium\<close>

text \<open>
  \<open>indexedDB.open\<close> may fail, and then \<open>init\<close> rejects at every call (the rejected
  \<open>initPromise\<close> is kept). A single request on the store may fail too, and its \<open>onerror\<close>
  handler rejects the promise of the operation. Which of the two happens is a parameter.
\<close>

datatype error = IDBOpenError | IDBRequestError | ApiRequestFailed | TypeError

datatype 'a outcome = Resolved 'a | Rejected error

datatype request =
    StoreGet string
  | StorePut string
  | StoreDelete string
  | StoreClear
  | StoreGetAll
  | StoreOpenCursor
  | IndexOpenCursor

record medium =
  open_fails :: bool
  request_fails :: "request \<Rightarrow> bool"

definition healthy :: medium where
  "healthy = \<lparr> open_fails = False, request_fails = (\<lambda>r. False) \<rparr>"

definition init :: "medium \<Rightarrow> unit outcome" where
  "init m = (if open_fails m then Rejected IDBOpenError else Resolved ())"

text \<open>
  Every method has the shape
  \<^verbatim>\<open>try { await this.init(); if (!this.db) return X; return new Promise(...) } catch { return X }\<close>.
  A rejection of the awaited \<open>init()\<close> is caught and the method resolves with \<open>X\<close>. Once
  \<open>init()\<close> has resolved, \<open>this.db\<close> is set, so the \<open>!this.db\<close> branch is not taken. The
  promise built last is returned without \<open>await\<close>: the \<open>try\<close> block has been left when it
  settles, so its rejection is the rejection of the method. Each method below returns its
  outcome and the store it leaves.
\<close>

definition PhotoCache_delete ::
  "medium \<Rightarrow> store \<Rightarrow> string \<Rightarrow> string \<Rightarrow> unit outcome \<times> store" where
  "PhotoCache_delete m st inspectionId photoId =
     (case init m of
        Rejected e \<Rightarrow> (Resolved (), st)
      | Resolved u \<Rightarrow>
          (let k = mk_key inspectionId photoId in
           if request_fails m (StoreDelete k) then (Rejected IDBRequestError, st)
           else (Resolved (), store_delete st k)))"

text \<open>
  \<open>ageDays = ageMs / (1000 * 60 * 60 * 24)\<close>. On integer milliseconds the double
  division rounds to a value on the same side of 7 as the exact quotient, so the quotient
  is taken in the reals.
\<close>

definition ageDays :: "int \<Rightarrow> CachedPhoto \<Rightarrow> real" where
  "ageDays now cached = real_of_int (now - timestamp cached) / (1000 * 60 * 60 * 24)"

text \<open>
  \<open>get\<close>: an expired record is deleted by a call of \<open>this.delete\<close> that is not awaited;
  the outcome of that call is dropped and \<open>get\<close> resolves with null.
\<close>

definition PhotoCache_get ::
  "medium \<Rightarrow> int \<Rightarrow> store \<Rightarrow> string \<Rightarrow> string \<Rightarrow> string option outcome \<times> store" where
  "PhotoCache_get m now st inspectionId photoId =
     (case init m of
        Rejected e \<Rightarrow> (Resolved None, st)
      | Resolved u \<Rightarrow>
          (let k = mk_key inspectionId photoId in
           if request_fails m (StoreGet k) then (Rejected IDBRequestError, st)
           else (case store_get st k of
                   None \<Rightarrow> (Resolved None, st)
                 | Some cached \<Rightarrow>
                     if ageDays now cached > CACHE_EXPIRY_DAYS
                     then (Resolved None, snd (PhotoCache_delete m st inspectionId photoId))
                     else (Resolved (Some (dataUrl cached)), st))))"

text \<open>
  \<open>getTotalSize\<close> and \<open>cleanOldest\<close> are private and return their promise the same way;
  \<open>set\<close> awaits both inside its \<open>try\<close>, so there a rejection of either is caught.
\<close>

definition getTotalSize :: "medium \<Rightarrow> store \<Rightarrow> nat outcome" where
  "getTotalSize m st =
     (case init m of
        Rejected e \<Rightarrow> Resolved 0
      | Resolved u \<Rightarrow>
          if request_fails m StoreGetAll then Rejected IDBRequestError
          else Resolved (total_size st))"

definition cleanOldest :: "medium \<Rightarrow> store \<Rightarrow> nat \<Rightarrow> unit outcome \<times> store" where
  "cleanOldest m st neededBytes =
     (case init m of
        Rejected e \<Rightarrow> (Resolved (), st)
      | Resolved u \<Rightarrow>
          if request_fails m IndexOpenCursor then (Rejected IDBRequestError, st)
          else (Resolved (), snd (clean_loop neededBytes 0 (index_cursor st))))"

definition PhotoCache_set ::
  "medium \<Rightarrow> int \<Rightarrow> store \<Rightarrow> string \<Rightarrow> string \<Rightarrow> string \<Rightarrow> unit outcome \<times> store" where
  "PhotoCache_set m now st inspectionId photoId url =
     (case init m of
        Rejected e \<Rightarrow> (Resolved (), st)
      | Resolved u \<Rightarrow>
          (let k = mk_key inspectionId photoId;
               size = blob_size url
           in case getTotalSize m st of
                Rejected e \<Rightarrow> (Resolved (), st)
              | Resolved currentSize \<Rightarrow>
                  (case (if currentSize + size > maxSizeBytes
                         then cleanOldest m st size else (Resolved (), st)) of
                     (Rejected e, st') \<Rightarrow> (Resolved (), st')
                   | (Resolved u', st') \<Rightarrow>
                       if request_fails m (StorePut k) then (Rejected IDBRequestError, st')
                       else (Resolved (),
                             store_put st' \<lparr> key = k, dataUrl = url, timestamp = now,
                                             sizeBytes = size \<rparr>))))"

subsection \<open>The steps of \<open>set\<close>, and sets that overlap\<close>

text \<open>
  \<open>set\<close> is not one step: it awaits, in turn, the transaction that reads the total size
  (read-only), the eviction pass when the check asks for one (read-write) and the put
  (read-write), and other operations may run between them. IndexedDB runs the transactions
  on a store in the order of their creation, a read-write one alone. The three steps:
\<close>

definition set_check :: "medium \<Rightarrow> store \<Rightarrow> nat outcome" where
  "set_check m st = (case init m of Rejected e \<Rightarrow> Rejected e | Resolved u \<Rightarrow> getTotalSize m st)"

definition set_evict :: "medium \<Rightarrow> store \<Rightarrow> nat \<Rightarrow> nat \<Rightarrow> unit outcome \<times> store" where
  "set_evict m st bytes currentSize =
     (if currentSize + bytes > maxSizeBytes then cleanOldest m st bytes else (Resolved (), st))"

definition set_put :: "medium \<Rightarrow> int \<Rightarrow> store \<Rightarrow> string \<Rightarrow> string \<Rightarrow> unit outcome \<times> store" where
  "set_put m now st k url =
     (if request_fails m (StorePut k) then (Rejected IDBRequestError, st)
      else (Resolved (),
            store_put st \<lparr> key = k, dataUrl = url, timestamp = now, sizeBytes = blob_size url \<rparr>))"

text \<open>
  Sets started together: the callers map over their photos, call \<open>set\<close> for each and await
  \<open>Promise.all\<close> (\<open>batchFetchPhotoData\<close>, \<open>useBatchUploadPhotos\<close>). Every call reaches its size
  read before the event of the first read is delivered, so the reads are the first
  transactions and all see the store as it was at the start. Then, in the order of the
  calls, a set whose check asks for it runs its eviction pass and any other set its put
  (\<open>first_writes\<close>; the entry is the outcome of a set that has finished, or nothing when its
  put is still to come); the puts of the sets that evicted come last
  (\<open>later_puts\<close>). A set is given by inspection id, photo id and data URL; each put is at
  the time \<open>now\<close>. The result is the outcomes in the order of the calls, and the store.
\<close>

fun first_writes ::
  "medium \<Rightarrow> int \<Rightarrow> nat \<Rightarrow> store \<Rightarrow> (string \<times> string \<times> string) list
     \<Rightarrow> unit outcome option list \<times> store" where
  "first_writes m now currentSize st [] = ([], st)"
| "first_writes m now currentSize st ((i, p, url) # rest) =
     (case (if currentSize + blob_size url > maxSizeBytes
            then (case cleanOldest m st (blob_size url) of
                    (Rejected e, st') \<Rightarrow> (Some (Resolved ()), st')
                  | (Resolved u, st') \<Rightarrow> (None, st'))
            else (case set_put m now st (mk_key i p) url of
                    (out, st') \<Rightarrow> (Some out, st'))) of
        (res, st') \<Rightarrow>
          (case first_writes m now currentSize st' rest of
             (ress, st'') \<Rightarrow> (res # ress, st'')))"

fun later_puts ::
  "medium \<Rightarrow> int \<Rightarrow> store \<Rightarrow> ((string \<times> string \<times> string) \<times> unit outcome option) list
     \<Rightarrow> unit outcome list \<times> store" where
  "later_puts m now st [] = ([], st)"
| "later_puts m now st (((i, p, url), Some out) # rest) =
     (case later_puts m now st rest of (outs, st') \<Rightarrow> (out # outs, st'))"
| "later_puts m now st (((i, p, url), None) # rest) =
     (case set_put m now st (mk_key i p) url of
        (out, st') \<Rightarrow>
          (case later_puts m now st' rest of (outs, st'') \<Rightarrow> (out # outs, st'')))"

definition PhotoCache_set_together ::
  "medium \<Rightarrow> int \<Rightarrow> store \<Rightarrow> (string \<times> string \<times> string) list \<Rightarrow> unit outcome list \<times> store" where
  "PhotoCache_set_together m now st sets =
     (case set_check m st of
        Rejected e \<Rightarrow> (map (\<lambda>s. Resolved ()) sets, st)
      | Resolved currentSize \<Rightarrow>
          (case first_writes m now currentSize st sets of
             (ress, st') \<Rightarrow> later_puts m now st' (zip sets ress)))"

subsection \<open>The other operations\<close>

text \<open>\<open>deleteInspection\<close>: a cursor over the store deletes the keys that start with the id and a colon.\<close>

definition startsWith :: "string \<Rightarrow> string \<Rightarrow> bool" where
  "startsWith s p = (take (length p) s = p)"

definition PhotoCache_deleteInspection ::
  "medium \<Rightarrow> store \<Rightarrow> string \<Rightarrow> unit outcome \<times> store" where
  "PhotoCache_deleteInspection m st inspectionId =
     (case init m of
        Rejected e \<Rightarrow> (Resolved (), st)
      | Resolved u \<Rightarrow>
          if request_fails m StoreOpenCursor then (Rejected IDBRequestError, st)
          else (Resolved (), filter (\<lambda>c. \<not> startsWith (key c) (inspectionId @ '':'')) st))"

definition PhotoCache_clear :: "medium \<Rightarrow> store \<Rightarrow> unit outcome \<times> store" where
  "PhotoCache_clear m st =
     (case init m of
        Rejected e \<Rightarrow> (Resolved (), st)
      | Resolved u \<Rightarrow>
          if request_fails m StoreClear then (Rejected IDBRequestError, st)
          else (Resolved (), []))"

text \<open>\<open>getStats\<close> resolves with the count and the bytes (\<open>sizeMB\<close> is the bytes divided by 1024 * 1024).\<close>

definition PhotoCache_getStats :: "medium \<Rightarrow> store \<Rightarrow> (nat \<times> nat) outcome" where
  "PhotoCache_getStats m st =
     (case init m of
        Rejected e \<Rightarrow> Resolved (0, 0)
      | Resolved u \<Rightarrow>
          if request_fails m StoreGetAll then Rejected IDBRequestError
          else Resolved (length st, total_size st))"

text \<open>
  \<open>batchGet\<close>: one \<open>store.get\<close> per id; a request that fails only counts as completed, a
  record that is present and not expired is entered in the result map under its photo id.
\<close>

definition batch_lookup :: "medium \<Rightarrow> int \<Rightarrow> store \<Rightarrow> string \<Rightarrow> string \<Rightarrow> string option" where
  "batch_lookup m now st inspectionId photoId =
     (let k = mk_key inspectionId photoId in
      if request_fails m (StoreGet k) then None
      else (case store_get st k of
              None \<Rightarrow> None
            | Some cached \<Rightarrow>
                if ageDays now cached \<le> CACHE_EXPIRY_DAYS then Some (dataUrl cached) else None))"

fun batch_results ::
  "medium \<Rightarrow> int \<Rightarrow> store \<Rightarrow> string \<Rightarrow> string list \<Rightarrow> (string \<rightharpoonup> string) \<Rightarrow> (string \<rightharpoonup> string)" where
  "batch_results m now st inspectionId [] results = results"
| "batch_results m now st inspectionId (photoId # photoIds) results =
     batch_results m now st inspectionId photoIds
       (case batch_lookup m now st inspectionId photoId of
          None \<Rightarrow> results
        | Some url \<Rightarrow> results(photoId \<mapsto> url))"

definition PhotoCache_batchGet ::
  "medium \<Rightarrow> int \<Rightarrow> store \<Rightarrow> string \<Rightarrow> string list \<Rightarrow> (string \<rightharpoonup> string) outcome" where
  "PhotoCache_batchGet m now st inspectionId photoIds =
     (case init m of
        Rejected e \<Rightarrow> Resolved Map.empty
      | Resolved u \<Rightarrow> Resolved (batch_results m now st inspectionId photoIds Map.empty))"

section \<open>The remote key-value store (src/lib/kv-client.ts, server/index.tsx)\<close>

text \<open>
  A JavaScript value that may be \<open>undefined\<close> or \<open>null\<close> is an option. Of the fields of
  \<open>Photo\<close> the record keeps the ones the functions below read or write; the others
  (section, item_id, original_filename, width, height, size_bytes, exif_taken_at,
  uploaded_by, processing_status, created_at, url) are carried along unchanged by the
  source and are left out.
\<close>

record Photo =
  photo_id :: string
  inspection_id :: "string option"
  storage_key :: "string option"
  caption :: "string option"
  order_index :: "int option"

text \<open>A template literal prints an undefined value as the word \<open>undefined\<close>.\<close>

definition js_str :: "string option \<Rightarrow> string" where
  "js_str v = (case v of None \<Rightarrow> ''undefined'' | Some s \<Rightarrow> s)"

definition KEYS_photoIndex :: "string \<Rightarrow> string" where
  "KEYS_photoIndex inspectionId = ''photo-index:'' @ inspectionId"

definition KEYS_photoData :: "string \<Rightarrow> string \<Rightarrow> string" where
  "KEYS_photoData inspectionId photoId = ''photo-data:'' @ inspectionId @ '':'' @ photoId"

text \<open>
  The table \<open>kv_store\<close> holds, under a \<open>photo-index:\<close> key, the list of metadata records of
  an inspection's photos and, under a \<open>photo-data:\<close> key, one full photo record.
\<close>

datatype kv_value = VPhoto Photo | VIndex "Photo list"

datatype api_call =
    KvSet string
  | KvGet string
  | KvDelete string
  | KvMget "string list"

text \<open>
  The remote state: the rows of the table and the log of the requests sent to the server,
  oldest first. \<open>apiCall\<close> throws when the response is not ok; which requests fail is the
  parameter \<open>fails\<close>.
\<close>

record remote =
  contents :: "(string \<times> kv_value) list"
  calls :: "api_call list"

definition kvStore_set ::
  "(api_call \<Rightarrow> bool) \<Rightarrow> remote \<Rightarrow> string \<Rightarrow> kv_value \<Rightarrow> unit outcome \<times> remote" where
  "kvStore_set fails r k v =
     (let r' = r\<lparr>calls := calls r @ [KvSet k]\<rparr> in
      if fails (KvSet k) then (Rejected ApiRequestFailed, r')
      else (Resolved (), r'\<lparr>contents := (k, v) # filter (\<lambda>kv. fst kv \<noteq> k) (contents r)\<rparr>))"

definition kvStore_get ::
  "(api_call \<Rightarrow> bool) \<Rightarrow> remote \<Rightarrow> string \<Rightarrow> kv_value option outcome \<times> remote" where
  "kvStore_get fails r k =
     (let r' = r\<lparr>calls := calls r @ [KvGet k]\<rparr> in
      if fails (KvGet k) then (Rejected ApiRequestFailed, r')
      else (Resolved (map_of (contents r) k), r'))"

definition kvStore_delete ::
  "(api_call \<Rightarrow> bool) \<Rightarrow> remote \<Rightarrow> string \<Rightarrow> unit outcome \<times> remote" where
  "kvStore_delete fails r k =
     (let r' = r\<lparr>calls := calls r @ [KvDelete k]\<rparr> in
      if fails (KvDelete k) then (Rejected ApiRequestFailed, r')
      else (Resolved (), r'\<lparr>contents := filter (\<lambda>kv. fst kv \<noteq> k) (contents r)\<rparr>))"

text \<open>
  \<open>mget\<close> returns at once on an empty key list; otherwise it sends one request, and the
  server answers with one value per key, in the order of the keys, null for a key without row.
\<close>

definition kvStore_mget ::
  "(api_call \<Rightarrow> bool) \<Rightarrow> remote \<Rightarrow> string list \<Rightarrow> kv_value option list outcome \<times> remote" where
  "kvStore_mget fails r keys =
     (if keys = [] then (Resolved [], r)
      else (let r' = r\<lparr>calls := calls r @ [KvMget keys]\<rparr> in
            if fails (KvMget keys) then (Rejected ApiRequestFailed, r')
            else (Resolved (map (map_of (contents r)) keys), r')))"

text \<open>\<open>Promise.all\<close> over promises that have all been started: it rejects if one of them does.\<close>

fun Promise_all :: "unit outcome list \<Rightarrow> unit outcome" where
  "Promise_all [] = Resolved ()"
| "Promise_all (Resolved u # ps) = Promise_all ps"
| "Promise_all (Rejected e # ps) = Rejected e"

section \<open>Batch fetch (hooks/use-database.ts, batchFetchPhotoData)\<close>

text \<open>A value read under a \<open>photo-data:\<close> key is used as a photo.\<close>

definition as_photo :: "kv_value option \<Rightarrow> Photo option" where
  "as_photo v = (case v of Some (VPhoto p) \<Rightarrow> Some p | _ \<Rightarrow> None)"

text \<open>\<open>{ id: photoId, storage_key: ... } as Photo\<close>: the other fields are undefined.\<close>

definition cached_photo :: "string \<Rightarrow> string option \<Rightarrow> Photo" where
  "cached_photo photoId url =
     \<lparr> photo_id = photoId, inspection_id = None, storage_key = url, caption = None,
       order_index = None \<rparr>"

text \<open>\<open>photo?.storage_key\<close> as a condition: the photo is there and its string is not empty.\<close>

definition has_storage_key :: "Photo option \<Rightarrow> bool" where
  "has_storage_key photo =
     (case photo of None \<Rightarrow> False
      | Some p \<Rightarrow> (case storage_key p of None \<Rightarrow> False | Some s \<Rightarrow> s \<noteq> []))"

text \<open>
  Step 4, the write-through: one \<open>photoCache.set\<close> per server photo with a storage key, all
  started inside \<open>serverPhotos.map\<close> before \<open>Promise.all\<close> is awaited, hence sets started
  together, each at the time \<open>now\<close>.
\<close>

definition storage_key_of :: "Photo option \<Rightarrow> string" where
  "storage_key_of photo =
     (case photo of None \<Rightarrow> []
      | Some p \<Rightarrow> (case storage_key p of None \<Rightarrow> [] | Some s \<Rightarrow> s))"

definition fetched_sets ::
  "string \<Rightarrow> (string \<times> Photo option) list \<Rightarrow> (string \<times> string \<times> string) list" where
  "fetched_sets inspectionId serverPhotos =
     map (\<lambda>ph. (inspectionId, fst ph, storage_key_of (snd ph)))
       (filter (\<lambda>ph. has_storage_key (snd ph)) serverPhotos)"

definition store_fetched ::
  "medium \<Rightarrow> int \<Rightarrow> store \<Rightarrow> string \<Rightarrow> (string \<times> Photo option) list \<Rightarrow> unit outcome list \<times> store" where
  "store_fetched m now st inspectionId serverPhotos =
     PhotoCache_set_together m now st (fetched_sets inspectionId serverPhotos)"

text \<open>Step 5: the map from photo id to photo, the entries of the cache first, then the server's.\<close>

fun add_server_photos ::
  "(string \<times> Photo option) list \<Rightarrow> (string \<rightharpoonup> Photo) \<Rightarrow> (string \<rightharpoonup> Photo)" where
  "add_server_photos [] photoMap = photoMap"
| "add_server_photos ((photoId, photo) # rest) photoMap =
     add_server_photos rest
       (case photo of None \<Rightarrow> photoMap | Some p \<Rightarrow> photoMap(photoId \<mapsto> p))"

definition add_cached_photos :: "(string \<rightharpoonup> string) \<Rightarrow> (string \<rightharpoonup> Photo)" where
  "add_cached_photos cachedPhotos =
     (\<lambda>photoId. case cachedPhotos photoId of
                  None \<Rightarrow> None
                | Some url \<Rightarrow> Some (cached_photo photoId (Some url)))"

text \<open>
  The function returns the outcome, the store and the remote state. \<open>now\<close> is the time of
  the cache lookup, \<open>later\<close> the time of the write-through. The progress callback, the log
  lines and the preloading of the images have no part in the result and are left out.
\<close>

definition batchFetchPhotoData ::
  "(api_call \<Rightarrow> bool) \<Rightarrow> medium \<Rightarrow> int \<Rightarrow> int \<Rightarrow> store \<Rightarrow> remote \<Rightarrow> string \<Rightarrow> string list
     \<Rightarrow> Photo list outcome \<times> store \<times> remote" where
  "batchFetchPhotoData fails m now later st r inspectionId photoIds =
     (if photoIds = [] then (Resolved [], st, r)
      else
        (case PhotoCache_batchGet m now st inspectionId photoIds of
           Rejected e \<Rightarrow> (Rejected e, st, r)
         | Resolved cachedPhotos \<Rightarrow>
             (let missingPhotoIds = filter (\<lambda>i. cachedPhotos i = None) photoIds in
              if missingPhotoIds = []
              then (Resolved (map (\<lambda>photoId. cached_photo photoId (cachedPhotos photoId)) photoIds),
                    st, r)
              else
                (let keys = map (KEYS_photoData inspectionId) missingPhotoIds in
                 case kvStore_mget fails r keys of
                   (Rejected e, r') \<Rightarrow> (Rejected e, st, r')
                 | (Resolved values, r') \<Rightarrow>
                     (let serverPhotos = zip missingPhotoIds (map as_photo values) in
                      case store_fetched m later st inspectionId serverPhotos of
                        (outs, st') \<Rightarrow>
                          (case Promise_all outs of
                             Rejected e \<Rightarrow> (Rejected e, st', r')
                           | Resolved u \<Rightarrow>
                               (let photoMap = add_server_photos serverPhotos
                                                 (add_cached_photos cachedPhotos)
                                in (Resolved (List.map_filter photoMap photoIds), st', r'))))))))"

section \<open>Deleting a photo (hooks/use-database.ts, useDeletePhoto)\<close>

text \<open>
  \<open>mutationFn\<close> has two steps with an await between them: it reads the index of the
  inspection, and then, from the index it has read, it sends the write of the filtered
  index, the delete of the full record and the delete in the browser cache, together.
  Nothing locks the index between the two steps.
  \<open>(await kvStore.get(...)) || []\<close>: a missing row gives the empty list; a row that is not a
  list makes \<open>filter\<close> throw.
\<close>

definition deletePhoto_read ::
  "(api_call \<Rightarrow> bool) \<Rightarrow> remote \<Rightarrow> Photo \<Rightarrow> kv_value option outcome \<times> remote" where
  "deletePhoto_read fails r photo =
     kvStore_get fails r (KEYS_photoIndex (js_str (inspection_id photo)))"

definition deletePhoto_write ::
  "(api_call \<Rightarrow> bool) \<Rightarrow> medium \<Rightarrow> store \<Rightarrow> remote \<Rightarrow> Photo \<Rightarrow> kv_value option
     \<Rightarrow> Photo outcome \<times> store \<times> remote" where
  "deletePhoto_write fails m st r photo v =
     (let inspectionId = js_str (inspection_id photo) in
      case v of
        Some (VPhoto p) \<Rightarrow> (Rejected TypeError, st, r)
      | _ \<Rightarrow>
          (let existingIndex = (case v of Some (VIndex ps) \<Rightarrow> ps | _ \<Rightarrow> []);
               updatedIndex = filter (\<lambda>p. photo_id p \<noteq> photo_id photo) existingIndex
           in case kvStore_set fails r (KEYS_photoIndex inspectionId) (VIndex updatedIndex) of
                (o1, r2) \<Rightarrow>
                  (case kvStore_delete fails r2 (KEYS_photoData inspectionId (photo_id photo)) of
                     (o2, r3) \<Rightarrow>
                       (case PhotoCache_delete m st inspectionId (photo_id photo) of
                          (o3, st') \<Rightarrow>
                            (case Promise_all [o1, o2, o3] of
                               Rejected e \<Rightarrow> (Rejected e, st', r3)
                             | Resolved u \<Rightarrow> (Resolved photo, st', r3))))))"

text \<open>A delete that runs with no other request between its two steps.\<close>

definition deletePhoto_mutationFn ::
  "(api_call \<Rightarrow> bool) \<Rightarrow> medium \<Rightarrow> store \<Rightarrow> remote \<Rightarrow> Photo \<Rightarrow> Photo outcome \<times> store \<times> remote" where
  "deletePhoto_mutationFn fails m st r photo =
     (case deletePhoto_read fails r photo of
        (Rejected e, r1) \<Rightarrow> (Rejected e, st, r1)
      | (Resolved v, r1) \<Rightarrow> deletePhoto_write fails m st r1 photo v)"

text \<open>
  Two deletes that overlap: the second is started while the first awaits its read, so
  both read the index before either writes. The result is the two outcomes, the store and
  the remote state.
\<close>

definition deletePhoto_overlapped ::
  "(api_call \<Rightarrow> bool) \<Rightarrow> medium \<Rightarrow> store \<Rightarrow> remote \<Rightarrow> Photo \<Rightarrow> Photo
     \<Rightarrow> Photo outcome \<times> Photo outcome \<times> store \<times> remote" where
  "deletePhoto_overlapped fails m st r photoA photoB =
     (case deletePhoto_read fails r photoA of
        (readA, r1) \<Rightarrow>
          (case deletePhoto_read fails r1 photoB of
             (readB, r2) \<Rightarrow>
               (case (case readA of
                        Rejected e \<Rightarrow> (Rejected e, st, r2)
                      | Resolved v \<Rightarrow> deletePhoto_write fails m st r2 photoA v) of
                  (outA, st1, r3) \<Rightarrow>
                    (case (case readB of
                             Rejected e \<Rightarrow> (Rejected e, st1, r3)
                           | Resolved v \<Rightarrow> deletePhoto_write fails m st1 r3 photoB v) of
                       (outB, st2, r4) \<Rightarrow> (outA, outB, st2, r4)))))"

text \<open>The index of an inspection, and whether one of its entries has no full record.\<close>

definition photo_index :: "remote \<Rightarrow> string \<Rightarrow> Photo list" where
  "photo_index r inspectionId =
     (case map_of (contents r) (KEYS_photoIndex inspectionId) of
        Some (VIndex ps) \<Rightarrow> ps
      | _ \<Rightarrow> [])"

definition dangling :: "remote \<Rightarrow> string \<Rightarrow> bool" where
  "dangling r inspectionId =
     list_ex (\<lambda>p. map_of (contents r) (KEYS_photoData inspectionId (photo_id p)) = None)
       (photo_index r inspectionId)"

section \<open>The reactive query cache and the optimistic mutations\<close>

text \<open>
  The hooks use the query client of the library @tanstack/react-query, which is not part
  of the repository. Its operations are modelled as the library documents them: a query
  has a key (a list), data that may be undefined, and a fetch that may be in flight; a
  filter \<open>{ queryKey }\<close> matches the queries whose key starts with the given list;
  \<open>setQueryData\<close> leaves the cache unchanged when the updater returns undefined and
  creates the query when there is none; \<open>cancelQueries\<close> stops the fetches of the matching
  queries and leaves their data as it was. The type of the data is a parameter: the keys
  \<open>['inspection-photos', id]\<close> hold photo lists, the keys \<open>['inspection', id]\<close> inspections.
\<close>

record 'd query =
  queryKey :: "string list"
  qdata :: "'d option"
  isFetching :: bool

type_synonym 'd query_cache = "'d query list"

definition matches :: "string list \<Rightarrow> 'd query \<Rightarrow> bool" where
  "matches filterKey q = (take (length filterKey) (queryKey q) = filterKey)"

definition getQueryData :: "'d query_cache \<Rightarrow> string list \<Rightarrow> 'd option" where
  "getQueryData qc k =
     (case find (\<lambda>q. queryKey q = k) qc of None \<Rightarrow> None | Some q \<Rightarrow> qdata q)"

definition setQueryData ::
  "'d query_cache \<Rightarrow> string list \<Rightarrow> ('d option \<Rightarrow> 'd option) \<Rightarrow> 'd query_cache" where
  "setQueryData qc k updater =
     (case updater (getQueryData qc k) of
        None \<Rightarrow> qc
      | Some d \<Rightarrow>
          (if list_ex (\<lambda>q. queryKey q = k) qc
           then map (\<lambda>q. if queryKey q = k then q\<lparr>qdata := Some d\<rparr> else q) qc
           else qc @ [\<lparr> queryKey = k, qdata = Some d, isFetching = False \<rparr>]))"

definition getQueriesData ::
  "'d query_cache \<Rightarrow> string list \<Rightarrow> (string list \<times> 'd option) list" where
  "getQueriesData qc filterKey =
     map (\<lambda>q. (queryKey q, qdata q)) (filter (matches filterKey) qc)"

definition setQueriesData ::
  "'d query_cache \<Rightarrow> string list \<Rightarrow> ('d option \<Rightarrow> 'd option) \<Rightarrow> 'd query_cache" where
  "setQueriesData qc filterKey updater =
     fold (\<lambda>k c. setQueryData c k updater)
       (map queryKey (filter (matches filterKey) qc)) qc"

definition cancelQueries :: "'d query_cache \<Rightarrow> string list \<Rightarrow> 'd query_cache" where
  "cancelQueries qc filterKey =
     map (\<lambda>q. if matches filterKey q then q\<lparr>isFetching := False\<rparr> else q) qc"

text \<open>
  \<open>mutateAsync\<close> of \<open>useMutation\<close>: \<open>onMutate\<close> runs first and returns the context, then
  \<open>mutationFn\<close>; when it rejects, \<open>onError\<close> runs and the error is thrown to the caller,
  otherwise \<open>onSuccess\<close> runs. The remote side is the state \<open>'s\<close> of \<open>mutationFn\<close>.
\<close>

definition mutateAsync ::
  "('q \<Rightarrow> 'v \<Rightarrow> 'q \<times> 'c) \<Rightarrow> ('s \<Rightarrow> 'v \<Rightarrow> 'a outcome \<times> 's) \<Rightarrow> ('q \<Rightarrow> 'a \<Rightarrow> 'v \<Rightarrow> 'c \<Rightarrow> 'q)
     \<Rightarrow> ('q \<Rightarrow> 'v \<Rightarrow> 'c \<Rightarrow> 'q) \<Rightarrow> 'q \<Rightarrow> 's \<Rightarrow> 'v \<Rightarrow> 'a outcome \<times> 'q \<times> 's" where
  "mutateAsync onMutate mutationFn onSuccess onError qc s variables =
     (case onMutate qc variables of
        (qc1, context) \<Rightarrow>
          (case mutationFn s variables of
             (Rejected e, s') \<Rightarrow> (Rejected e, onError qc1 variables context, s')
           | (Resolved d, s') \<Rightarrow> (Resolved d, onSuccess qc1 d variables context, s')))"

subsection \<open>useUpdateInspectionItem\<close>

text \<open>
  Of an inspection item the record keeps the id and the answer fields (\<open>item_notes\<close> is
  the field \<open>notes\<close>); \<open>updates\<close> is a partial item, a field that it does not have
  being \<open>None\<close>.
\<close>

record InspectionItem =
  item_id :: string
  answer_text :: "string option"
  answer_boolean :: "bool option"
  answer_select :: "string option"
  item_notes :: "string option"

record ItemUpdates =
  set_answer_text :: "string option option"
  set_answer_boolean :: "bool option option"
  set_answer_select :: "string option option"
  set_notes :: "string option option"

text \<open>\<open>{ ...item, ...updates }\<close>.\<close>

definition merge_item :: "InspectionItem \<Rightarrow> ItemUpdates \<Rightarrow> InspectionItem" where
  "merge_item item updates =
     item\<lparr> answer_text := (case set_answer_text updates of None \<Rightarrow> answer_text item | Some v \<Rightarrow> v),
           answer_boolean :=
             (case set_answer_boolean updates of None \<Rightarrow> answer_boolean item | Some v \<Rightarrow> v),
           answer_select :=
             (case set_answer_select updates of None \<Rightarrow> answer_select item | Some v \<Rightarrow> v),
           item_notes := (case set_notes updates of None \<Rightarrow> item_notes item | Some v \<Rightarrow> v) \<rparr>"

text \<open>The data of an inspection query: the inspection with its items (which may be missing).\<close>

record InspectionData =
  inspection :: string
  items :: "InspectionItem list option"

definition updateItem_updater ::
  "string \<Rightarrow> ItemUpdates \<Rightarrow> InspectionData option \<Rightarrow> InspectionData option" where
  "updateItem_updater i updates old =
     (case old of
        None \<Rightarrow> None
      | Some d \<Rightarrow>
          (case items d of
             None \<Rightarrow> Some d
           | Some its \<Rightarrow>
               Some (d\<lparr>items := Some (map (\<lambda>item. if item_id item = i then merge_item item updates
                                               else item) its)\<rparr>)))"

definition updateItem_onMutate ::
  "InspectionData query_cache \<Rightarrow> string \<times> ItemUpdates
     \<Rightarrow> InspectionData query_cache \<times> (string list \<times> InspectionData option) list" where
  "updateItem_onMutate qc variables =
     (let qc1 = cancelQueries qc [''inspection''];
          previousInspections = getQueriesData qc1 [''inspection''];
          qc2 = setQueriesData qc1 [''inspection'']
                  (updateItem_updater (fst variables) (snd variables))
      in (qc2, previousInspections))"

definition updateItem_onError ::
  "InspectionData query_cache \<Rightarrow> string \<times> ItemUpdates
     \<Rightarrow> (string list \<times> InspectionData option) list \<Rightarrow> InspectionData query_cache" where
  "updateItem_onError qc variables previousInspections =
     fold (\<lambda>(k, d) c. setQueryData c k (\<lambda>old. d)) previousInspections qc"

subsection \<open>useUploadPhoto, useDeletePhoto, useUpdatePhotoCaption\<close>

text \<open>
  The variables of an upload. The data URL is given (the reading of a file is left out);
  the two ids that \<open>crypto.randomUUID()\<close> draws, one in \<open>onMutate\<close> and one in
  \<open>mutationFn\<close>, are parameters.
\<close>

record UploadVariables =
  up_inspection_id :: string
  up_dataUrl :: string
  up_caption :: "string option"
  up_order_index :: int
  optimistic_uuid :: string
  server_uuid :: string

definition photos_key :: "string \<Rightarrow> string list" where
  "photos_key inspectionId = [''inspection-photos'', inspectionId]"

text \<open>\<open>old || []\<close>\<close>

definition or_empty :: "'a list option \<Rightarrow> 'a list" where
  "or_empty old = (case old of None \<Rightarrow> [] | Some xs \<Rightarrow> xs)"

text \<open>\<open>variables.caption || null\<close>: an empty caption becomes null.\<close>

definition or_null :: "string option \<Rightarrow> string option" where
  "or_null c = (case c of None \<Rightarrow> None | Some s \<Rightarrow> if s = [] then None else Some s)"

definition new_photo :: "UploadVariables \<Rightarrow> string \<Rightarrow> Photo" where
  "new_photo variables photoId =
     \<lparr> photo_id = photoId, inspection_id = Some (up_inspection_id variables),
       storage_key = Some (up_dataUrl variables), caption = or_null (up_caption variables),
       order_index = Some (up_order_index variables) \<rparr>"

text \<open>The context of the photo mutations: the snapshot, and the optimistic id of an upload.\<close>

definition uploadPhoto_onMutate ::
  "Photo list query_cache \<Rightarrow> UploadVariables
     \<Rightarrow> Photo list query_cache \<times> (Photo list option \<times> string)" where
  "uploadPhoto_onMutate qc variables =
     (let newPhoto = new_photo variables (optimistic_uuid variables);
          k = photos_key (up_inspection_id variables);
          qc1 = cancelQueries qc k;
          previousPhotos = getQueryData qc1 k;
          qc2 = setQueryData qc1 k (\<lambda>old. Some (or_empty old @ [newPhoto]))
      in (qc2, (previousPhotos, optimistic_uuid variables)))"

text \<open>
  \<open>if (context?.previousPhotos) setQueryData(key, context.previousPhotos)\<close>: an array is
  truthy, also the empty one; undefined is not.
\<close>

definition restore_previousPhotos ::
  "Photo list query_cache \<Rightarrow> string \<Rightarrow> Photo list option \<Rightarrow> Photo list query_cache" where
  "restore_previousPhotos qc inspectionId previousPhotos =
     (case previousPhotos of
        None \<Rightarrow> qc
      | Some ps \<Rightarrow> setQueryData qc (photos_key inspectionId) (\<lambda>old. Some ps))"

definition uploadPhoto_onError ::
  "Photo list query_cache \<Rightarrow> UploadVariables \<Rightarrow> (Photo list option \<times> string)
     \<Rightarrow> Photo list query_cache" where
  "uploadPhoto_onError qc variables context =
     restore_previousPhotos qc (up_inspection_id variables) (fst context)"

definition uploadPhoto_onSuccess ::
  "Photo list query_cache \<Rightarrow> Photo \<Rightarrow> UploadVariables \<Rightarrow> (Photo list option \<times> string)
     \<Rightarrow> Photo list query_cache" where
  "uploadPhoto_onSuccess qc d variables context =
     setQueryData qc (photos_key (up_inspection_id variables))
       (\<lambda>old. Some (map (\<lambda>p. if photo_id p = snd context then d else p) (or_empty old)))"

text \<open>
  \<open>mutationFn\<close> of the upload: read the index, then write the index, the full record and
  the browser cache in parallel. Its state is the store of the cache and the remote state.
\<close>

definition uploadPhoto_mutationFn ::
  "(api_call \<Rightarrow> bool) \<Rightarrow> medium \<Rightarrow> int \<Rightarrow> store \<times> remote \<Rightarrow> UploadVariables
     \<Rightarrow> Photo outcome \<times> (store \<times> remote)" where
  "uploadPhoto_mutationFn fails m now s variables =
     (let st = fst s; r = snd s;
          photoId = server_uuid variables;
          newPhoto = new_photo variables photoId;
          inspectionId = up_inspection_id variables
      in case kvStore_get fails r (KEYS_photoIndex inspectionId) of
           (Rejected e, r1) \<Rightarrow> (Rejected e, (st, r1))
         | (Resolved (Some (VPhoto p)), r1) \<Rightarrow> (Rejected TypeError, (st, r1))
         | (Resolved v, r1) \<Rightarrow>
             (let existingIndex = (case v of Some (VIndex ps) \<Rightarrow> ps | _ \<Rightarrow> []);
                  photoMetadata = newPhoto\<lparr>storage_key := Some []\<rparr>
              in case kvStore_set fails r1 (KEYS_photoIndex inspectionId)
                        (VIndex (existingIndex @ [photoMetadata])) of
                   (o1, r2) \<Rightarrow>
                     (case kvStore_set fails r2 (KEYS_photoData inspectionId photoId)
                             (VPhoto newPhoto) of
                        (o2, r3) \<Rightarrow>
                          (case PhotoCache_set m now st inspectionId photoId
                                  (up_dataUrl variables) of
                             (o3, st') \<Rightarrow>
                               (case Promise_all [o1, o2, o3] of
                                  Rejected e \<Rightarrow> (Rejected e, (st', r3))
                                | Resolved u \<Rightarrow> (Resolved photoMetadata, (st', r3)))))))"

definition useUploadPhoto ::
  "(api_call \<Rightarrow> bool) \<Rightarrow> medium \<Rightarrow> int \<Rightarrow> Photo list query_cache \<Rightarrow> store \<times> remote
     \<Rightarrow> UploadVariables \<Rightarrow> Photo outcome \<times> Photo list query_cache \<times> (store \<times> remote)" where
  "useUploadPhoto fails m now =
     mutateAsync uploadPhoto_onMutate (uploadPhoto_mutationFn fails m now)
       uploadPhoto_onSuccess uploadPhoto_onError"

text \<open>Photo delete: the optimistic transform removes the photo from the list.\<close>

definition deletePhoto_onMutate ::
  "Photo list query_cache \<Rightarrow> Photo \<Rightarrow> Photo list query_cache \<times> Photo list option" where
  "deletePhoto_onMutate qc photo =
     (let k = photos_key (js_str (inspection_id photo));
          qc1 = cancelQueries qc k;
          previousPhotos = getQueryData qc1 k;
          qc2 = setQueryData qc1 k
                  (\<lambda>old. Some (filter (\<lambda>p. photo_id p \<noteq> photo_id photo) (or_empty old)))
      in (qc2, previousPhotos))"

definition deletePhoto_onError ::
  "Photo list query_cache \<Rightarrow> Photo \<Rightarrow> Photo list option \<Rightarrow> Photo list query_cache" where
  "deletePhoto_onError qc photo context =
     restore_previousPhotos qc (js_str (inspection_id photo)) context"

text \<open>Caption update: the variables are the photo id, the caption and the inspection id.\<close>

definition updateCaption_onMutate ::
  "Photo list query_cache \<Rightarrow> string \<times> string \<times> string
     \<Rightarrow> Photo list query_cache \<times> Photo list option" where
  "updateCaption_onMutate qc variables =
     (case variables of
        (i, cap, inspectionId) \<Rightarrow>
          (let k = photos_key inspectionId;
               qc1 = cancelQueries qc k;
               previousPhotos = getQueryData qc1 k;
               qc2 = setQueryData qc1 k
                       (\<lambda>old. Some (map (\<lambda>p. if photo_id p = i then p\<lparr>caption := Some cap\<rparr> else p)
                                      (or_empty old)))
           in (qc2, previousPhotos)))"

definition updateCaption_onError ::
  "Photo list query_cache \<Rightarrow> string \<times> string \<times> string \<Rightarrow> Photo list option
     \<Rightarrow> Photo list query_cache" where
  "updateCaption_onError qc variables context =
     restore_previousPhotos qc (snd (snd variables)) context"

section \<open>Debounced text edits (pages/inspection-edit-page.tsx, handleTextUpdate)\<close>

text \<open>
  Time is the millisecond clock of the event loop. A pending \<open>setTimeout\<close> is a timer with
  the time at which it is due and the item, field and value its callback has captured.
  \<open>debounceTimers\<close> maps a field key to the pending timer; \<open>itemUpdates\<close> lists the calls
  of \<open>handleItemUpdate\<close>, oldest first: each starts one mutation of the item
  (\<open>useUpdateInspectionItem\<close>), which writes the item to the remote store once. The
  flag set \<open>isEditingField\<close> and \<open>hasUnsavedChanges\<close> do not touch timers or writes and are
  left out.
\<close>

datatype field = AnswerText | Notes

definition field_name :: "field \<Rightarrow> string" where
  "field_name f = (case f of AnswerText \<Rightarrow> ''answer_text'' | Notes \<Rightarrow> ''notes'')"

definition fieldKey :: "string \<Rightarrow> field \<Rightarrow> string" where
  "fieldKey itemId f = itemId @ ''-'' @ field_name f"















section \<open>Sequences of cache operations\<close>






text \<open>
  What \<open>batchGet\<close> has for a photo id of its list: nothing when the database cannot be
  opened, else the data URL of a record that is present, readable and not expired.
\<close>

definition cache_hit :: "medium \<Rightarrow> int \<Rightarrow> store \<Rightarrow> string \<Rightarrow> string \<Rightarrow> string option" where
  "cache_hit m now st inspectionId photoId =
     (if open_fails m then None else batch_lookup m now st inspectionId photoId)"

text \<open>What the table of the server has under the \<open>photo-data:\<close> key of a photo.\<close>

definition remote_photo :: "remote \<Rightarrow> string \<Rightarrow> string \<Rightarrow> Photo option" where
  "remote_photo r inspectionId photoId =
     as_photo (map_of (contents r) (KEYS_photoData inspectionId photoId))"

text \<open>
  The photo that cache and server together have for a photo id: the cache's when it is a
  cache hit, the server's otherwise, none when both lack it.
\<close>

definition merged_photo ::
  "medium \<Rightarrow> int \<Rightarrow> store \<Rightarrow> remote \<Rightarrow> string \<Rightarrow> string \<Rightarrow> Photo option" where
  "merged_photo m now st r inspectionId photoId =
     (case cache_hit m now st inspectionId photoId of
        Some url \<Rightarrow> Some (cached_photo photoId (Some url))
      | None \<Rightarrow> remote_photo r inspectionId photoId)"

section \<open>Properties of the cache\<close>

lemma ageDays_gt_iff:
  "ageDays now c > CACHE_EXPIRY_DAYS \<longleftrightarrow> now - timestamp c > 604800000"
proof -
  have "ageDays now c > CACHE_EXPIRY_DAYS \<longleftrightarrow>
        real_of_int (604800000 + timestamp c) < real_of_int now"
    by (simp add: ageDays_def CACHE_EXPIRY_DAYS_def field_simps)
  also have "\<dots> \<longleftrightarrow> 604800000 + timestamp c < now"
    by (simp only: of_int_less_iff)
  finally show ?thesis by linarith
qed

lemma store_get_delete: "store_get (store_delete st k) k = None"
  by (simp add: store_get_def store_delete_def find_None_iff)

lemma store_get_put: "store_get (store_put st c) (key c) = Some c"
  by (simp add: store_get_def store_put_def)

text \<open>
  C7. When the medium works and the store holds a record for the key: if the age
  \<open>now - timestamp\<close> of the record exceeds 7 days (in milliseconds), \<open>get\<close> resolves with
  null and leaves the store without a record for the key; otherwise it resolves with the
  record's data URL and leaves the store as it was.
\<close>

theorem get_expired_miss_and_removed:
  assumes "\<not> open_fails m"
    and "\<not> request_fails m (StoreGet (mk_key i p))"
    and "\<not> request_fails m (StoreDelete (mk_key i p))"
    and "store_get st (mk_key i p) = Some c"
  shows "(now - timestamp c > 7 * 24 * 60 * 60 * 1000 \<longrightarrow>
            fst (PhotoCache_get m now st i p) = Resolved None
          \<and> snd (PhotoCache_get m now st i p) = store_delete st (mk_key i p)
          \<and> store_get (snd (PhotoCache_get m now st i p)) (mk_key i p) = None)
       \<and> (now - timestamp c \<le> 7 * 24 * 60 * 60 * 1000 \<longrightarrow>
            PhotoCache_get m now st i p = (Resolved (Some (dataUrl c)), st))"
  using assms
  by (auto simp: PhotoCache_get_def PhotoCache_delete_def init_def Let_def ageDays_gt_iff
      store_get_delete)

theorem get_expired_miss_and_removed_witness:
  "fst (PhotoCache_get healthy 691200000
      [\<lparr>key = ''i1:p1'', dataUrl = ''data:x'', timestamp = 0, sizeBytes = 6\<rparr>] ''i1'' ''p1'')
     = Resolved None
   \<and> snd (PhotoCache_get healthy 691200000
      [\<lparr>key = ''i1:p1'', dataUrl = ''data:x'', timestamp = 0, sizeBytes = 6\<rparr>] ''i1'' ''p1'') = []
   \<and> PhotoCache_get healthy 600000000
      [\<lparr>key = ''i1:p1'', dataUrl = ''data:x'', timestamp = 0, sizeBytes = 6\<rparr>] ''i1'' ''p1''
     = (Resolved (Some ''data:x''),
        [\<lparr>key = ''i1:p1'', dataUrl = ''data:x'', timestamp = 0, sizeBytes = 6\<rparr>])"
  using get_expired_miss_and_removed [of healthy "''i1''" "''p1''"
      "[\<lparr>key = ''i1:p1'', dataUrl = ''data:x'', timestamp = 0, sizeBytes = 6\<rparr>]"
      "\<lparr>key = ''i1:p1'', dataUrl = ''data:x'', timestamp = 0, sizeBytes = 6\<rparr>" 691200000]
    get_expired_miss_and_removed [of healthy "''i1''" "''p1''"
      "[\<lparr>key = ''i1:p1'', dataUrl = ''data:x'', timestamp = 0, sizeBytes = 6\<rparr>]"
      "\<lparr>key = ''i1:p1'', dataUrl = ''data:x'', timestamp = 0, sizeBytes = 6\<rparr>" 600000000]
  by (simp add: healthy_def mk_key_def store_get_def store_delete_def)

lemma ageDays_le_iff:
  "ageDays now c \<le> CACHE_EXPIRY_DAYS \<longleftrightarrow> now - timestamp c \<le> 604800000"
  using ageDays_gt_iff [of now c] by auto

text \<open>What \<open>set\<close> does when none of its requests fails.\<close>

lemma PhotoCache_set_ok:
  assumes "\<not> open_fails m" and "\<not> request_fails m StoreGetAll"
    and "\<not> request_fails m IndexOpenCursor"
    and "\<not> request_fails m (StorePut (mk_key i p))"
  shows "PhotoCache_set m now st i p v =
     (Resolved (),
      store_put (if total_size st + blob_size v > maxSizeBytes
                 then snd (clean_loop (blob_size v) 0 (index_cursor st)) else st)
        \<lparr> key = mk_key i p, dataUrl = v, timestamp = now, sizeBytes = blob_size v \<rparr>)"
  using assms
  by (simp add: PhotoCache_set_def getTotalSize_def cleanOldest_def init_def Let_def)

text \<open>
  C9. When none of the requests fails, \<open>set\<close> resolves, and a \<open>get\<close> of the same key that
  follows it at a time \<open>now'\<close> not more than 7 days after the time \<open>now\<close> of the \<open>set\<close>
  resolves with the payload that was set, and leaves the store as it is.
\<close>

theorem set_then_get_roundtrip:
  assumes "\<not> open_fails m" and "\<not> request_fails m StoreGetAll"
    and "\<not> request_fails m IndexOpenCursor"
    and "\<not> request_fails m (StorePut (mk_key i p))"
    and "\<not> request_fails m (StoreGet (mk_key i p))"
    and "now' - now \<le> 7 * 24 * 60 * 60 * 1000"
  shows "fst (PhotoCache_set m now st i p v) = Resolved ()
     \<and> PhotoCache_get m now' (snd (PhotoCache_set m now st i p v)) i p
         = (Resolved (Some v), snd (PhotoCache_set m now st i p v))"
proof -
  let ?c = "\<lparr> key = mk_key i p, dataUrl = v, timestamp = now, sizeBytes = blob_size v \<rparr>"
  obtain st' where s: "PhotoCache_set m now st i p v = (Resolved (), store_put st' ?c)"
    using PhotoCache_set_ok [OF assms(1-4)] by blast
  have g: "store_get (store_put st' ?c) (mk_key i p) = Some ?c"
    using store_get_put [of st' ?c] by simp
  have a: "\<not> ageDays now' ?c > CACHE_EXPIRY_DAYS"
    using assms(6) by (simp add: ageDays_gt_iff)
  show ?thesis
    using assms(1,5) g a by (simp add: s PhotoCache_get_def init_def Let_def)
qed

theorem set_then_get_roundtrip_witness:
  "fst (PhotoCache_set healthy 1000 [] ''i1'' ''p1'' ''data:abc'') = Resolved ()
   \<and> PhotoCache_get healthy 2000 (snd (PhotoCache_set healthy 1000 [] ''i1'' ''p1'' ''data:abc''))
        ''i1'' ''p1''
      = (Resolved (Some ''data:abc''),
         [\<lparr> key = ''i1:p1'', dataUrl = ''data:abc'', timestamp = 1000, sizeBytes = 8 \<rparr>])"
  using set_then_get_roundtrip [of healthy "''i1''" "''p1''" 2000 1000 "[]" "''data:abc''"]
    PhotoCache_set_ok [of healthy "''i1''" "''p1''" 1000 "[]" "''data:abc''"]
  by (simp add: healthy_def mk_key_def blob_size_def store_put_def maxSizeBytes_def
      MAX_CACHE_SIZE_MB_def total_size_def)


lemma batchGet_never_rejects: "\<exists>res. PhotoCache_batchGet m now st i ps = Resolved res"
  by (simp add: PhotoCache_batchGet_def init_def)

text \<open>
  C5, where the code departs from it. The database is open and the request of the
  operation fails (for \<open>set\<close>, the \<open>put\<close> is refused, as on a quota error): \<open>set\<close>,
  \<open>get\<close>, \<open>delete\<close>, \<open>deleteInspection\<close>, \<open>clear\<close> and \<open>getStats\<close> reject, so the error
  reaches the caller.
\<close>

theorem request_error_reaches_caller:
  "PhotoCache_set \<lparr>open_fails = False, request_fails = (\<lambda>r. r = StorePut ''i1:p1'')\<rparr>
      0 [] ''i1'' ''p1'' ''data:x'' = (Rejected IDBRequestError, [])
   \<and> PhotoCache_get \<lparr>open_fails = False, request_fails = (\<lambda>r. r = StoreGet ''i1:p1'')\<rparr>
      0 [] ''i1'' ''p1'' = (Rejected IDBRequestError, [])
   \<and> PhotoCache_delete \<lparr>open_fails = False, request_fails = (\<lambda>r. r = StoreDelete ''i1:p1'')\<rparr>
      [] ''i1'' ''p1'' = (Rejected IDBRequestError, [])
   \<and> PhotoCache_deleteInspection \<lparr>open_fails = False, request_fails = (\<lambda>r. r = StoreOpenCursor)\<rparr>
      [] ''i1'' = (Rejected IDBRequestError, [])
   \<and> PhotoCache_clear \<lparr>open_fails = False, request_fails = (\<lambda>r. r = StoreClear)\<rparr> []
      = (Rejected IDBRequestError, [])
   \<and> PhotoCache_getStats \<lparr>open_fails = False, request_fails = (\<lambda>r. r = StoreGetAll)\<rparr> []
      = Rejected IDBRequestError"
  by (simp add: PhotoCache_set_def PhotoCache_get_def PhotoCache_delete_def
      PhotoCache_deleteInspection_def PhotoCache_clear_def PhotoCache_getStats_def
      getTotalSize_def cleanOldest_def init_def Let_def mk_key_def total_size_def blob_size_def
      maxSizeBytes_def MAX_CACHE_SIZE_MB_def)

section \<open>The eviction pass and the byte budget\<close>








































text \<open>
  \<open>PhotoCache_set\<close> is the three steps of a \<open>set\<close> with nothing else between them, and a
  \<open>set\<close> started alone is one: the bound below is about such sets.
\<close>

lemma PhotoCache_set_steps:
  "PhotoCache_set m now st i p url =
     (case set_check m st of
        Rejected e \<Rightarrow> (Resolved (), st)
      | Resolved currentSize \<Rightarrow>
          (case set_evict m st (blob_size url) currentSize of
             (Rejected e, st') \<Rightarrow> (Resolved (), st')
           | (Resolved u, st') \<Rightarrow> set_put m now st' (mk_key i p) url))"
  by (simp add: PhotoCache_set_def set_check_def set_evict_def set_put_def Let_def
      split: outcome.splits prod.splits)

lemma set_together_single:
  "PhotoCache_set_together m now st [(i, p, url)] =
     ([fst (PhotoCache_set m now st i p url)], snd (PhotoCache_set m now st i p url))"
  by (simp add: PhotoCache_set_steps PhotoCache_set_together_def set_evict_def
      split: outcome.splits prod.splits)









section \<open>Properties of the batch fetch\<close>

lemma batch_results_apply:
  "batch_results m now st i ps res k =
     (if k \<in> set ps
      then (case batch_lookup m now st i k of None \<Rightarrow> res k | Some url \<Rightarrow> Some url)
      else res k)"
  by (induction ps arbitrary: res) (auto split: option.splits)

lemma batchGet_cache_hit:
  "PhotoCache_batchGet m now st i ps =
     Resolved (if open_fails m then Map.empty
               else batch_results m now st i ps Map.empty)"
  by (simp add: PhotoCache_batchGet_def init_def)

lemma batchGet_apply:
  assumes "PhotoCache_batchGet m now st i ps = Resolved cachedPhotos"
  shows "cachedPhotos k = (if k \<in> set ps then cache_hit m now st i k else None)"
proof -
  from assms have "cachedPhotos = (if open_fails m then Map.empty
               else batch_results m now st i ps Map.empty)"
    by (simp add: batchGet_cache_hit)
  then show ?thesis
    by (simp add: cache_hit_def batch_results_apply split: option.splits)
qed

lemma missing_eq:
  assumes "PhotoCache_batchGet m now st i ps = Resolved cachedPhotos"
  shows "filter (\<lambda>k. cachedPhotos k = None) ps = filter (\<lambda>k. cache_hit m now st i k = None) ps"
  by (rule filter_cong) (simp_all add: batchGet_apply [OF assms])

text \<open>
  C3. The log of the requests sent to the server after the batch fetch is the log before
  it, followed by nothing when every id of the list is a cache hit, and otherwise by one
  \<open>mget\<close> request for the keys of all the ids that are not, in the order of the list.
\<close>

theorem batch_fetch_one_remote_call:
  "calls (snd (snd (batchFetchPhotoData fails m now later st r i ps))) =
     calls r @ (if \<forall>k \<in> set ps. cache_hit m now st i k \<noteq> None then []
                else [KvMget (map (KEYS_photoData i)
                                (filter (\<lambda>k. cache_hit m now st i k = None) ps))])"
proof -
  obtain cachedPhotos where c: "PhotoCache_batchGet m now st i ps = Resolved cachedPhotos"
    by (simp add: batchGet_cache_hit)
  let ?missing = "filter (\<lambda>k. cache_hit m now st i k = None) ps"
  have all: "?missing = [] \<longleftrightarrow> (\<forall>k \<in> set ps. cache_hit m now st i k \<noteq> None)"
    by (simp add: filter_empty_conv)
  show ?thesis
  proof (cases "?missing = []")
    case True
    then show ?thesis
      using all by (simp add: batchFetchPhotoData_def c missing_eq [OF c] Let_def)
  next
    case False
    then have ps: "ps \<noteq> []" by auto
    from False all show ?thesis
      by (simp add: batchFetchPhotoData_def c missing_eq [OF c] Let_def ps kvStore_mget_def
          split: prod.splits outcome.splits)
  qed
qed


theorem batch_fetch_one_remote_call_witness:
  "calls (snd (snd (batchFetchPhotoData (\<lambda>c. False) healthy 100 200
      [\<lparr>key = ''i1:a'', dataUrl = ''data:a'', timestamp = 0, sizeBytes = 6\<rparr>,
       \<lparr>key = ''i1:b'', dataUrl = ''data:b'', timestamp = 0, sizeBytes = 6\<rparr>]
      \<lparr>contents = [], calls = []\<rparr> ''i1'' [''a'', ''b'', ''c'', ''d''])))
     = [KvMget [''photo-data:i1:c'', ''photo-data:i1:d'']]
   \<and> calls (snd (snd (batchFetchPhotoData (\<lambda>c. False) healthy 100 200
      [\<lparr>key = ''i1:a'', dataUrl = ''data:a'', timestamp = 0, sizeBytes = 6\<rparr>,
       \<lparr>key = ''i1:b'', dataUrl = ''data:b'', timestamp = 0, sizeBytes = 6\<rparr>]
      \<lparr>contents = [], calls = []\<rparr> ''i1'' [''a'', ''b''])))
     = []"
  using batch_fetch_one_remote_call [where fails = "\<lambda>c. False" and m = healthy and now = 100
      and later = 200 and i = "''i1''" and ps = "[''a'', ''b'', ''c'', ''d'']"
      and r = "\<lparr>contents = [], calls = []\<rparr>"
      and st = "[\<lparr>key = ''i1:a'', dataUrl = ''data:a'', timestamp = 0, sizeBytes = 6\<rparr>,
       \<lparr>key = ''i1:b'', dataUrl = ''data:b'', timestamp = 0, sizeBytes = 6\<rparr>]"]
    batch_fetch_one_remote_call [where fails = "\<lambda>c. False" and m = healthy and now = 100
      and later = 200 and i = "''i1''" and ps = "[''a'', ''b'']"
      and r = "\<lparr>contents = [], calls = []\<rparr>"
      and st = "[\<lparr>key = ''i1:a'', dataUrl = ''data:a'', timestamp = 0, sizeBytes = 6\<rparr>,
       \<lparr>key = ''i1:b'', dataUrl = ''data:b'', timestamp = 0, sizeBytes = 6\<rparr>]"]
  by (simp add: cache_hit_def batch_lookup_def healthy_def mk_key_def store_get_def
      ageDays_le_iff KEYS_photoData_def)

lemma set_resolves:
  "\<forall>k. \<not> request_fails m (StorePut k) \<Longrightarrow> fst (PhotoCache_set m now st i p v) = Resolved ()"
  by (simp add: PhotoCache_set_def Let_def split: outcome.splits prod.splits)

lemma set_put_resolves:
  "\<forall>k. \<not> request_fails m (StorePut k) \<Longrightarrow> fst (set_put m now st k url) = Resolved ()"
  by (simp add: set_put_def)

lemma first_writes_resolved:
  assumes "\<forall>k. \<not> request_fails m (StorePut k)"
  shows "list_all (\<lambda>res. res = None \<or> res = Some (Resolved ()))
           (fst (first_writes m now cur st sets))"
proof (induction sets arbitrary: st)
  case Nil
  then show ?case by simp
next
  case (Cons s sets)
  obtain i p url where s: "s = (i, p, url)" by (cases s)
  obtain out st1 where sp: "set_put m now st (mk_key i p) url = (out, st1)"
    by (cases "set_put m now st (mk_key i p) url")
  with set_put_resolves [OF assms, of now st "mk_key i p" url] have out: "out = Resolved ()"
    by simp
  obtain c st2 where cl: "cleanOldest m st (blob_size url) = (c, st2)"
    by (cases "cleanOldest m st (blob_size url)")
  obtain r1 t1 where f1: "first_writes m now cur st1 sets = (r1, t1)"
    by (cases "first_writes m now cur st1 sets")
  obtain r2 t2 where f2: "first_writes m now cur st2 sets = (r2, t2)"
    by (cases "first_writes m now cur st2 sets")
  from Cons.IH [of st1] Cons.IH [of st2] f1 f2 show ?case
    by (cases c) (simp_all add: s sp out cl)
qed

lemma later_puts_resolve:
  assumes ok: "\<forall>k. \<not> request_fails m (StorePut k)"
  shows "list_all (\<lambda>res. res = None \<or> res = Some (Resolved ())) (map snd xs) \<Longrightarrow>
           Promise_all (fst (later_puts m now st xs)) = Resolved ()"
proof (induction xs arbitrary: st)
  case Nil
  then show ?case by simp
next
  case (Cons x rest)
  obtain i p url res where x: "x = ((i, p, url), res)"
    by (cases x) auto
  show ?case
  proof (cases res)
    case None
    obtain out st1 where sp: "set_put m now st (mk_key i p) url = (out, st1)"
      by (cases "set_put m now st (mk_key i p) url")
    with set_put_resolves [OF ok, of now st "mk_key i p" url] have out: "out = Resolved ()"
      by simp
    from Cons.prems have "list_all (\<lambda>res. res = None \<or> res = Some (Resolved ())) (map snd rest)"
      by simp
    from Cons.IH [OF this, of st1] have ih: "Promise_all (fst (later_puts m now st1 rest)) = Resolved ()" .
    obtain outs st2 where lp: "later_puts m now st1 rest = (outs, st2)"
      by (cases "later_puts m now st1 rest")
    with ih have "Promise_all outs = Resolved ()" by simp
    with x None sp out lp show ?thesis by simp
  next
    case (Some out)
    with Cons.prems x have out: "out = Resolved ()" by simp
    from Cons.prems have "list_all (\<lambda>res. res = None \<or> res = Some (Resolved ())) (map snd rest)"
      by simp
    from Cons.IH [OF this, of st] have ih: "Promise_all (fst (later_puts m now st rest)) = Resolved ()" .
    obtain outs st2 where lp: "later_puts m now st rest = (outs, st2)"
      by (cases "later_puts m now st rest")
    with ih have "Promise_all outs = Resolved ()" by simp
    with x Some out lp show ?thesis by simp
  qed
qed

lemma set_together_resolves:
  assumes "\<forall>k. \<not> request_fails m (StorePut k)"
  shows "Promise_all (fst (PhotoCache_set_together m now st sets)) = Resolved ()"
proof (cases "set_check m st")
  case (Rejected e)
  have "Promise_all (map (\<lambda>s. Resolved ()) xs) = Resolved ()" for xs :: "(string \<times> string \<times> string) list"
    by (induction xs) simp_all
  with Rejected show ?thesis by (simp add: PhotoCache_set_together_def)
next
  case (Resolved cur)
  obtain ress st' where fw: "first_writes m now cur st sets = (ress, st')"
    by (cases "first_writes m now cur st sets")
  from first_writes_resolved [OF assms, of now cur st sets] fw
  have "list_all (\<lambda>res. res = None \<or> res = Some (Resolved ())) ress" by simp
  then have "list_all (\<lambda>res. res = None \<or> res = Some (Resolved ())) (map snd (zip sets ress))"
    by (auto simp: list_all_iff dest: set_zip_rightD)
  from later_puts_resolve [OF assms this, of now st']
  show ?thesis by (simp add: PhotoCache_set_together_def Resolved fw)
qed

lemma store_fetched_resolves:
  "\<forall>k. \<not> request_fails m (StorePut k) \<Longrightarrow>
     Promise_all (fst (store_fetched m later st i xs)) = Resolved ()"
  by (simp add: store_fetched_def set_together_resolves)

lemma add_server_photos_apply:
  "add_server_photos (map (\<lambda>k. (k, f k)) ks) photoMap k =
     (if k \<in> set ks then (case f k of None \<Rightarrow> photoMap k | Some p \<Rightarrow> Some p)
      else photoMap k)"
  by (induction ks arbitrary: photoMap) (auto split: option.splits)

lemma zip_with_map: "zip xs (map f xs) = map (\<lambda>x. (x, f x)) xs"
  by (induction xs) simp_all

lemma map_filter_all_some:
  "\<forall>x \<in> set xs. f x = Some (g x) \<Longrightarrow> List.map_filter f xs = map g xs"
  by (induction xs) (simp_all add: List.map_filter_simps)

lemma map_filter_cong': "\<forall>x \<in> set xs. f x = g x \<Longrightarrow> List.map_filter f xs = List.map_filter g xs"
  by (induction xs) (auto simp: List.map_filter_simps split: option.splits)

text \<open>
  C4, as the code has it. When the \<open>mget\<close> request and the writes to the cache succeed, the
  batch fetch resolves with the photos found, in the order of the input list: for each id
  of the list the cache's photo when the id is a cache hit, otherwise the server's photo
  when the server has one, and nothing for an id that both lack. The result has as many
  elements as the list has ids found in one of the two sources.
\<close>

theorem batch_fetch_input_order:
  assumes net: "\<not> fails (KvMget (map (KEYS_photoData i)
                                 (filter (\<lambda>k. cache_hit m now st i k = None) ps)))"
    and puts: "\<forall>k. \<not> request_fails m (StorePut k)"
  shows "fst (batchFetchPhotoData fails m now later st r i ps)
           = Resolved (List.map_filter (merged_photo m now st r i) ps)
     \<and> length (List.map_filter (merged_photo m now st r i) ps)
           = length (filter (\<lambda>k. merged_photo m now st r i k \<noteq> None) ps)"
proof
  obtain cachedPhotos where c: "PhotoCache_batchGet m now st i ps = Resolved cachedPhotos"
    by (simp add: batchGet_cache_hit)
  have cp: "cachedPhotos k = cache_hit m now st i k" if "k \<in> set ps" for k
    using batchGet_apply [OF c, of k] that by simp
  let ?missing = "filter (\<lambda>k. cache_hit m now st i k = None) ps"
  show "fst (batchFetchPhotoData fails m now later st r i ps)
           = Resolved (List.map_filter (merged_photo m now st r i) ps)"
  proof (cases "?missing = []")
    case True
    then have hit: "\<forall>k \<in> set ps. cache_hit m now st i k \<noteq> None"
      by (simp add: filter_empty_conv)
    have "List.map_filter (merged_photo m now st r i) ps
            = map (\<lambda>k. cached_photo k (cachedPhotos k)) ps"
      by (rule map_filter_all_some) (use hit cp in \<open>auto simp: merged_photo_def\<close>)
    with True show ?thesis
      by (simp add: batchFetchPhotoData_def c missing_eq [OF c] Let_def List.map_filter_simps)
  next
    case False
    then have ps: "ps \<noteq> []" by auto
    let ?keys = "map (KEYS_photoData i) ?missing"
    let ?server = "map (\<lambda>k. (k, remote_photo r i k)) ?missing"
    have mget: "kvStore_mget fails r ?keys
        = (Resolved (map (map_of (contents r)) ?keys), r\<lparr>calls := calls r @ [KvMget ?keys]\<rparr>)"
      using net False by (simp add: kvStore_mget_def Let_def)
    have server: "zip ?missing (map as_photo (map (map_of (contents r)) ?keys)) = ?server"
      using zip_with_map [of ?missing "\<lambda>k. remote_photo r i k"]
      by (simp add: remote_photo_def comp_def)
    have server': "zip ?missing (map (as_photo \<circ> (map_of (contents r) \<circ> KEYS_photoData i))
                     ?missing) = ?server"
      using server by simp
    obtain outs st' where sf: "store_fetched m later st i ?server = (outs, st')"
      by (cases "store_fetched m later st i ?server")
    with store_fetched_resolves [OF puts, of later st i ?server]
    have ok: "Promise_all outs = Resolved ()" by simp
    have "List.map_filter (add_server_photos ?server (add_cached_photos cachedPhotos)) ps
            = List.map_filter (merged_photo m now st r i) ps"
      by (rule map_filter_cong')
        (use cp in \<open>auto simp: add_server_photos_apply add_cached_photos_def merged_photo_def
            split: option.splits\<close>)
    with False show ?thesis
      by (simp add: batchFetchPhotoData_def c missing_eq [OF c] Let_def ps mget server' sf ok)
  qed
next
  show "length (List.map_filter (merged_photo m now st r i) ps)
           = length (filter (\<lambda>k. merged_photo m now st r i k \<noteq> None) ps)"
    by (simp add: List.map_filter_def)
qed


theorem batch_fetch_input_order_witness:
  "fst (batchFetchPhotoData (\<lambda>c. False) healthy 100 200
      [\<lparr>key = ''i1:a'', dataUrl = ''data:a'', timestamp = 0, sizeBytes = 6\<rparr>]
      \<lparr>contents = [(''photo-data:i1:b'',
           VPhoto \<lparr>photo_id = ''b'', inspection_id = Some ''i1'', storage_key = Some ''data:b'',
                   caption = None, order_index = Some 1\<rparr>)], calls = []\<rparr>
      ''i1'' [''a'', ''b'', ''c''])
     = Resolved [cached_photo ''a'' (Some ''data:a''),
         \<lparr>photo_id = ''b'', inspection_id = Some ''i1'', storage_key = Some ''data:b'',
           caption = None, order_index = Some 1\<rparr>]"
  using batch_fetch_input_order [where fails = "\<lambda>c. False" and m = healthy and now = 100
      and later = 200 and i = "''i1''" and ps = "[''a'', ''b'', ''c'']"
      and r = "\<lparr>contents = [(''photo-data:i1:b'',
           VPhoto \<lparr>photo_id = ''b'', inspection_id = Some ''i1'', storage_key = Some ''data:b'',
                   caption = None, order_index = Some 1\<rparr>)], calls = []\<rparr>"
      and st = "[\<lparr>key = ''i1:a'', dataUrl = ''data:a'', timestamp = 0, sizeBytes = 6\<rparr>]"]
  by (simp add: merged_photo_def remote_photo_def as_photo_def cache_hit_def batch_lookup_def
      healthy_def mk_key_def store_get_def ageDays_le_iff KEYS_photoData_def
      List.map_filter_simps)

text \<open>
  Counterexample to C4 as stated: with \<open>a\<close> and \<open>b\<close> in the cache and \<open>c\<close> neither in the
  cache nor on the server, the result for the list \<open>[a, b, c]\<close> has two elements.
\<close>

theorem absent_photo_is_omitted_counterexample:
  "fst (batchFetchPhotoData (\<lambda>c. False) healthy 100 200
      [\<lparr>key = ''i1:a'', dataUrl = ''data:a'', timestamp = 0, sizeBytes = 6\<rparr>,
       \<lparr>key = ''i1:b'', dataUrl = ''data:b'', timestamp = 0, sizeBytes = 6\<rparr>]
      \<lparr>contents = [], calls = []\<rparr> ''i1'' [''a'', ''b'', ''c''])
     = Resolved [cached_photo ''a'' (Some ''data:a''), cached_photo ''b'' (Some ''data:b'')]"
  by (simp add: batchFetchPhotoData_def PhotoCache_batchGet_def init_def batch_lookup_def
      healthy_def mk_key_def store_get_def ageDays_le_iff KEYS_photoData_def kvStore_mget_def
      as_photo_def has_storage_key_def add_cached_photos_def List.map_filter_simps Let_def
      store_fetched_def fetched_sets_def PhotoCache_set_together_def set_check_def
      getTotalSize_def)

section \<open>Properties of the photo delete\<close>

lemma index_key_not_data_key: "KEYS_photoIndex a \<noteq> KEYS_photoData b c"
  by (simp add: KEYS_photoIndex_def KEYS_photoData_def)

lemma index_key_inj: "KEYS_photoIndex a = KEYS_photoIndex b \<longleftrightarrow> a = b"
  by (simp add: KEYS_photoIndex_def)

lemma data_key_inj_photo: "KEYS_photoData a p = KEYS_photoData a q \<longleftrightarrow> p = q"
  by (simp add: KEYS_photoData_def)

lemma colon_split:
  assumes "CHR '':'' \<notin> set a" and "CHR '':'' \<notin> set b" and "a @ '':'' @ p = b @ '':'' @ q"
  shows "a = b \<and> p = q"
proof -
  have tw: "takeWhile (\<lambda>c. c \<noteq> CHR '':'') (x @ '':'' @ y) = x" if "CHR '':'' \<notin> set x"
    for x y :: string
  proof -
    have "\<And>c. c \<in> set x \<Longrightarrow> c \<noteq> CHR '':''" using that by auto
    then have "takeWhile (\<lambda>c. c \<noteq> CHR '':'') (x @ '':'' @ y)
        = x @ takeWhile (\<lambda>c. c \<noteq> CHR '':'') ('':'' @ y)"
      by (rule takeWhile_append2)
    then show ?thesis by simp
  qed
  have "takeWhile (\<lambda>c. c \<noteq> CHR '':'') (a @ '':'' @ p) = a"
    "takeWhile (\<lambda>c. c \<noteq> CHR '':'') (b @ '':'' @ q) = b"
    using assms(1,2) by (simp_all only: tw not_False_eq_True)
  with assms(3) have "a = b" by simp
  with assms(3) show ?thesis by simp
qed

lemma data_key_inj:
  "CHR '':'' \<notin> set a \<Longrightarrow> CHR '':'' \<notin> set b \<Longrightarrow>
     KEYS_photoData a p = KEYS_photoData b q \<longleftrightarrow> a = b \<and> p = q"
  using colon_split [of a b p q] by (auto simp: KEYS_photoData_def)

lemma map_of_filter_key:
  "map_of (filter (\<lambda>kv. fst kv \<noteq> k) xs) k' = (if k' = k then None else map_of xs k')"
  by (induction xs) auto

text \<open>The table after a delete that has completed.\<close>

lemma deletePhoto_completed_contents:
  assumes completed: "fst (deletePhoto_mutationFn fails m st r photo) = Resolved photo'"
  shows "contents (snd (snd (deletePhoto_mutationFn fails m st r photo))) =
     filter (\<lambda>kv. fst kv \<noteq> KEYS_photoData (js_str (inspection_id photo)) (photo_id photo))
       ((KEYS_photoIndex (js_str (inspection_id photo)),
         VIndex (filter (\<lambda>p. photo_id p \<noteq> photo_id photo)
                   (photo_index r (js_str (inspection_id photo)))))
        # filter (\<lambda>kv. fst kv \<noteq> KEYS_photoIndex (js_str (inspection_id photo))) (contents r))"
proof -
  let ?ik = "KEYS_photoIndex (js_str (inspection_id photo))"
  let ?dk = "KEYS_photoData (js_str (inspection_id photo)) (photo_id photo)"
  note defs = deletePhoto_mutationFn_def deletePhoto_read_def deletePhoto_write_def
    kvStore_get_def kvStore_set_def kvStore_delete_def
    PhotoCache_delete_def init_def Let_def photo_index_def
  have g: "\<not> fails (KvGet ?ik)"
    using completed by (auto simp: defs)
  have v: "map_of (contents r) ?ik = Some (VPhoto p) \<Longrightarrow> False" for p
    using completed g by (simp add: defs)
  have s: "\<not> fails (KvSet ?ik)"
    using completed g v
    by (cases "map_of (contents r) ?ik") (auto simp: defs split: kv_value.splits if_splits)
  have d: "\<not> fails (KvDelete ?dk)"
    using completed g v s
    by (cases "map_of (contents r) ?ik") (auto simp: defs split: kv_value.splits if_splits)
  show ?thesis
    using g v s d by (cases "map_of (contents r) ?ik") (auto simp: defs split: kv_value.splits)
qed

lemma deletePhoto_completed:
  assumes "fst (deletePhoto_mutationFn fails m st r photo) = Resolved photo'"
  shows "map_of (contents (snd (snd (deletePhoto_mutationFn fails m st r photo)))) k =
     (if k = KEYS_photoData (js_str (inspection_id photo)) (photo_id photo) then None
      else if k = KEYS_photoIndex (js_str (inspection_id photo))
      then Some (VIndex (filter (\<lambda>p. photo_id p \<noteq> photo_id photo)
                           (photo_index r (js_str (inspection_id photo)))))
      else map_of (contents r) k)"
  unfolding deletePhoto_completed_contents [OF assms]
  by (simp add: map_of_filter_key del: filter.simps filter_filter)


lemma photo_index_after_delete:
  assumes "fst (deletePhoto_mutationFn fails m st r photo) = Resolved photo'"
  shows "photo_index (snd (snd (deletePhoto_mutationFn fails m st r photo))) i =
     (if i = js_str (inspection_id photo)
      then filter (\<lambda>p. photo_id p \<noteq> photo_id photo) (photo_index r i)
      else photo_index r i)"
  by (simp add: photo_index_def [of "snd (snd (deletePhoto_mutationFn fails m st r photo))"]
      deletePhoto_completed [OF assms] index_key_not_data_key index_key_inj)
    (simp add: photo_index_def)

text \<open>
  A delete that runs alone, with no other request on the table between its read of the
  index and its writes, and that completes (its promise resolved): the table has no row
  under the photo's \<open>photo-data:\<close> key, the index of the photo's inspection has no entry
  with the photo's id, and an index that had no dangling entry before has none after: the
  index of the photo's own inspection, and the index of any inspection when the
  inspection ids contain no colon (they are UUIDs), so that distinct pairs of ids give
  distinct keys.
\<close>

lemma delete_alone_no_dangling:
  assumes completed: "fst (deletePhoto_mutationFn fails m st r photo) = Resolved photo'"
  shows "map_of (contents (snd (snd (deletePhoto_mutationFn fails m st r photo))))
           (KEYS_photoData (js_str (inspection_id photo)) (photo_id photo)) = None
     \<and> photo_id photo \<notin> photo_id ` set (photo_index
           (snd (snd (deletePhoto_mutationFn fails m st r photo))) (js_str (inspection_id photo)))
     \<and> (\<not> dangling r (js_str (inspection_id photo))
          \<longrightarrow> \<not> dangling (snd (snd (deletePhoto_mutationFn fails m st r photo)))
                (js_str (inspection_id photo)))
     \<and> (\<forall>i. CHR '':'' \<notin> set i \<and> CHR '':'' \<notin> set (js_str (inspection_id photo))
              \<and> \<not> dangling r i
          \<longrightarrow> \<not> dangling (snd (snd (deletePhoto_mutationFn fails m st r photo))) i)"
proof -
  let ?r' = "snd (snd (deletePhoto_mutationFn fails m st r photo))"
  let ?insp = "js_str (inspection_id photo)"
  note tab = deletePhoto_completed [OF completed]
  note idx = photo_index_after_delete [OF completed]
  have gone: "map_of (contents ?r') (KEYS_photoData ?insp (photo_id photo)) = None"
    by (simp add: tab)
  have unlisted: "photo_id photo \<notin> photo_id ` set (photo_index ?r' ?insp)"
    by (auto simp: idx)
  have own: "\<not> dangling ?r' ?insp" if "\<not> dangling r ?insp"
  proof -
    have "map_of (contents ?r') (KEYS_photoData ?insp (photo_id p)) \<noteq> None"
      if "p \<in> set (photo_index ?r' ?insp)" for p
    proof -
      from that have p: "p \<in> set (photo_index r ?insp)" "photo_id p \<noteq> photo_id photo"
        by (auto simp: idx)
      with \<open>\<not> dangling r ?insp\<close>
      have "map_of (contents r) (KEYS_photoData ?insp (photo_id p)) \<noteq> None"
        by (auto simp: dangling_def list_ex_iff)
      with p(2) show ?thesis
        using index_key_not_data_key [of ?insp ?insp "photo_id p"]
        by (simp add: tab data_key_inj_photo)
    qed
    then show ?thesis by (auto simp: dangling_def list_ex_iff)
  qed
  have other: "\<not> dangling ?r' i"
    if "CHR '':'' \<notin> set i" "CHR '':'' \<notin> set ?insp" "\<not> dangling r i" for i
  proof (cases "i = ?insp")
    case True
    with own that(3) show ?thesis by simp
  next
    case False
    have "map_of (contents ?r') (KEYS_photoData i (photo_id p)) \<noteq> None"
      if "p \<in> set (photo_index ?r' i)" for p
    proof -
      from that False have p: "p \<in> set (photo_index r i)" by (simp add: idx)
      with \<open>\<not> dangling r i\<close>
      have "map_of (contents r) (KEYS_photoData i (photo_id p)) \<noteq> None"
        by (auto simp: dangling_def list_ex_iff)
      then show ?thesis
        using False index_key_not_data_key [of ?insp i "photo_id p"]
          data_key_inj [OF \<open>CHR '':'' \<notin> set i\<close> \<open>CHR '':'' \<notin> set ?insp\<close>, of "photo_id p" "photo_id photo"]
        by (simp add: tab)
    qed
    then show ?thesis by (auto simp: dangling_def list_ex_iff)
  qed
  from gone unlisted own other show ?thesis by blast
qed


lemma delete_alone_no_dangling_example:
  "fst (deletePhoto_mutationFn (\<lambda>c. False) healthy []
      \<lparr>contents =
         [(''photo-index:i1'',
           VIndex [\<lparr>photo_id = ''p1'', inspection_id = Some ''i1'', storage_key = Some '''',
                     caption = None, order_index = Some 0\<rparr>,
                   \<lparr>photo_id = ''p2'', inspection_id = Some ''i1'', storage_key = Some '''',
                     caption = None, order_index = Some 1\<rparr>]),
          (''photo-data:i1:p1'',
           VPhoto \<lparr>photo_id = ''p1'', inspection_id = Some ''i1'', storage_key = Some ''data:1'',
                    caption = None, order_index = Some 0\<rparr>),
          (''photo-data:i1:p2'',
           VPhoto \<lparr>photo_id = ''p2'', inspection_id = Some ''i1'', storage_key = Some ''data:2'',
                    caption = None, order_index = Some 1\<rparr>)],
        calls = []\<rparr>
      \<lparr>photo_id = ''p1'', inspection_id = Some ''i1'', storage_key = Some '''',
        caption = None, order_index = Some 0\<rparr>)
    = Resolved \<lparr>photo_id = ''p1'', inspection_id = Some ''i1'', storage_key = Some '''',
        caption = None, order_index = Some 0\<rparr>
   \<and> \<not> dangling (snd (snd (deletePhoto_mutationFn (\<lambda>c. False) healthy []
      \<lparr>contents =
         [(''photo-index:i1'',
           VIndex [\<lparr>photo_id = ''p1'', inspection_id = Some ''i1'', storage_key = Some '''',
                     caption = None, order_index = Some 0\<rparr>,
                   \<lparr>photo_id = ''p2'', inspection_id = Some ''i1'', storage_key = Some '''',
                     caption = None, order_index = Some 1\<rparr>]),
          (''photo-data:i1:p1'',
           VPhoto \<lparr>photo_id = ''p1'', inspection_id = Some ''i1'', storage_key = Some ''data:1'',
                    caption = None, order_index = Some 0\<rparr>),
          (''photo-data:i1:p2'',
           VPhoto \<lparr>photo_id = ''p2'', inspection_id = Some ''i1'', storage_key = Some ''data:2'',
                    caption = None, order_index = Some 1\<rparr>)],
        calls = []\<rparr>
      \<lparr>photo_id = ''p1'', inspection_id = Some ''i1'', storage_key = Some '''',
        caption = None, order_index = Some 0\<rparr>))) ''i1''"
proof -
  let ?photo = "\<lparr>photo_id = ''p1'', inspection_id = Some ''i1'', storage_key = Some '''',
        caption = None, order_index = Some 0\<rparr>"
  let ?r = "\<lparr>contents =
         [(''photo-index:i1'',
           VIndex [\<lparr>photo_id = ''p1'', inspection_id = Some ''i1'', storage_key = Some '''',
                     caption = None, order_index = Some 0\<rparr>,
                   \<lparr>photo_id = ''p2'', inspection_id = Some ''i1'', storage_key = Some '''',
                     caption = None, order_index = Some 1\<rparr>]),
          (''photo-data:i1:p1'',
           VPhoto \<lparr>photo_id = ''p1'', inspection_id = Some ''i1'', storage_key = Some ''data:1'',
                    caption = None, order_index = Some 0\<rparr>),
          (''photo-data:i1:p2'',
           VPhoto \<lparr>photo_id = ''p2'', inspection_id = Some ''i1'', storage_key = Some ''data:2'',
                    caption = None, order_index = Some 1\<rparr>)],
        calls = []\<rparr>"
  have completed: "fst (deletePhoto_mutationFn (\<lambda>c. False) healthy [] ?r ?photo) = Resolved ?photo"
    by (simp add: deletePhoto_mutationFn_def deletePhoto_read_def deletePhoto_write_def
        kvStore_get_def kvStore_set_def kvStore_delete_def
        PhotoCache_delete_def init_def healthy_def Let_def js_str_def KEYS_photoIndex_def)
  have before: "\<not> dangling ?r (js_str (inspection_id ?photo))"
    by (simp add: dangling_def photo_index_def js_str_def KEYS_photoIndex_def KEYS_photoData_def)
  from delete_alone_no_dangling [OF completed] before
  have "\<not> dangling (snd (snd (deletePhoto_mutationFn (\<lambda>c. False) healthy [] ?r ?photo)))
           (js_str (inspection_id ?photo))"
    by blast
  with completed show ?thesis by (simp add: js_str_def)
qed


text \<open>
  A delete that does not complete: the three writes are sent together, so when the write
  of the index fails and the delete of the full record succeeds, the mutation rejects and
  the index keeps an entry without full record.
\<close>

lemma failed_index_write_leaves_dangling:
  "fst (deletePhoto_mutationFn (\<lambda>c. c = KvSet ''photo-index:i1'') healthy []
      \<lparr>contents =
         [(''photo-index:i1'',
           VIndex [\<lparr>photo_id = ''p1'', inspection_id = Some ''i1'', storage_key = Some '''',
                     caption = None, order_index = Some 0\<rparr>]),
          (''photo-data:i1:p1'',
           VPhoto \<lparr>photo_id = ''p1'', inspection_id = Some ''i1'', storage_key = Some ''data:1'',
                    caption = None, order_index = Some 0\<rparr>)],
        calls = []\<rparr>
      \<lparr>photo_id = ''p1'', inspection_id = Some ''i1'', storage_key = Some '''',
        caption = None, order_index = Some 0\<rparr>)
    = Rejected ApiRequestFailed
   \<and> dangling (snd (snd (deletePhoto_mutationFn (\<lambda>c. c = KvSet ''photo-index:i1'') healthy []
      \<lparr>contents =
         [(''photo-index:i1'',
           VIndex [\<lparr>photo_id = ''p1'', inspection_id = Some ''i1'', storage_key = Some '''',
                     caption = None, order_index = Some 0\<rparr>]),
          (''photo-data:i1:p1'',
           VPhoto \<lparr>photo_id = ''p1'', inspection_id = Some ''i1'', storage_key = Some ''data:1'',
                    caption = None, order_index = Some 0\<rparr>)],
        calls = []\<rparr>
      \<lparr>photo_id = ''p1'', inspection_id = Some ''i1'', storage_key = Some '''',
        caption = None, order_index = Some 0\<rparr>))) ''i1''"
  by (simp add: deletePhoto_mutationFn_def deletePhoto_read_def deletePhoto_write_def
      kvStore_get_def kvStore_set_def kvStore_delete_def
      PhotoCache_delete_def init_def healthy_def Let_def js_str_def KEYS_photoIndex_def
      KEYS_photoData_def dangling_def photo_index_def)

text \<open>
  C8, where the code departs from it. The index of inspection \<open>i1\<close> lists the photos \<open>p1\<close>
  and \<open>p2\<close>, both with their full record, so no entry is dangling. The deletes of \<open>p1\<close> and
  of \<open>p2\<close> overlap and no request fails. Both read the index with its two entries; the
  first writes the index without \<open>p1\<close> and deletes the record of \<open>p1\<close>, the second writes
  the index it has read without \<open>p2\<close>, which puts \<open>p1\<close> back, and deletes the record of
  \<open>p2\<close>. Both deletes complete, and the index is left with an entry for \<open>p1\<close>, whose full
  record is gone.
\<close>

theorem overlapping_deletes_leave_dangling:
  "\<not> dangling
      \<lparr>contents =
         [(''photo-index:i1'',
           VIndex [\<lparr>photo_id = ''p1'', inspection_id = Some ''i1'', storage_key = Some '''',
                     caption = None, order_index = Some 0\<rparr>,
                   \<lparr>photo_id = ''p2'', inspection_id = Some ''i1'', storage_key = Some '''',
                     caption = None, order_index = Some 1\<rparr>]),
          (''photo-data:i1:p1'',
           VPhoto \<lparr>photo_id = ''p1'', inspection_id = Some ''i1'', storage_key = Some ''data:1'',
                    caption = None, order_index = Some 0\<rparr>),
          (''photo-data:i1:p2'',
           VPhoto \<lparr>photo_id = ''p2'', inspection_id = Some ''i1'', storage_key = Some ''data:2'',
                    caption = None, order_index = Some 1\<rparr>)],
        calls = []\<rparr> ''i1''
   \<and> deletePhoto_overlapped (\<lambda>c. False) healthy []
      \<lparr>contents =
         [(''photo-index:i1'',
           VIndex [\<lparr>photo_id = ''p1'', inspection_id = Some ''i1'', storage_key = Some '''',
                     caption = None, order_index = Some 0\<rparr>,
                   \<lparr>photo_id = ''p2'', inspection_id = Some ''i1'', storage_key = Some '''',
                     caption = None, order_index = Some 1\<rparr>]),
          (''photo-data:i1:p1'',
           VPhoto \<lparr>photo_id = ''p1'', inspection_id = Some ''i1'', storage_key = Some ''data:1'',
                    caption = None, order_index = Some 0\<rparr>),
          (''photo-data:i1:p2'',
           VPhoto \<lparr>photo_id = ''p2'', inspection_id = Some ''i1'', storage_key = Some ''data:2'',
                    caption = None, order_index = Some 1\<rparr>)],
        calls = []\<rparr>
      \<lparr>photo_id = ''p1'', inspection_id = Some ''i1'', storage_key = Some '''',
        caption = None, order_index = Some 0\<rparr>
      \<lparr>photo_id = ''p2'', inspection_id = Some ''i1'', storage_key = Some '''',
        caption = None, order_index = Some 1\<rparr>
     = (Resolved \<lparr>photo_id = ''p1'', inspection_id = Some ''i1'', storage_key = Some '''',
                   caption = None, order_index = Some 0\<rparr>,
        Resolved \<lparr>photo_id = ''p2'', inspection_id = Some ''i1'', storage_key = Some '''',
                   caption = None, order_index = Some 1\<rparr>,
        [],
        \<lparr>contents =
           [(''photo-index:i1'',
             VIndex [\<lparr>photo_id = ''p1'', inspection_id = Some ''i1'', storage_key = Some '''',
                       caption = None, order_index = Some 0\<rparr>])],
         calls = [KvGet ''photo-index:i1'', KvGet ''photo-index:i1'',
                  KvSet ''photo-index:i1'', KvDelete ''photo-data:i1:p1'',
                  KvSet ''photo-index:i1'', KvDelete ''photo-data:i1:p2'']\<rparr>)
   \<and> dangling
        \<lparr>contents =
           [(''photo-index:i1'',
             VIndex [\<lparr>photo_id = ''p1'', inspection_id = Some ''i1'', storage_key = Some '''',
                       caption = None, order_index = Some 0\<rparr>])],
         calls = [KvGet ''photo-index:i1'', KvGet ''photo-index:i1'',
                  KvSet ''photo-index:i1'', KvDelete ''photo-data:i1:p1'',
                  KvSet ''photo-index:i1'', KvDelete ''photo-data:i1:p2'']\<rparr> ''i1''"
  by (simp add: deletePhoto_overlapped_def deletePhoto_read_def deletePhoto_write_def
      kvStore_get_def kvStore_set_def kvStore_delete_def
      PhotoCache_delete_def init_def healthy_def Let_def js_str_def KEYS_photoIndex_def
      KEYS_photoData_def dangling_def photo_index_def store_delete_def)

section \<open>Properties of the optimistic mutations\<close>

lemma getQueryData_cancel: "getQueryData (cancelQueries qc f) k = getQueryData qc k"
  by (induction qc) (auto simp: getQueryData_def cancelQueries_def)

lemma getQueryData_set:
  "updater (getQueryData qc k) = Some d \<Longrightarrow>
     getQueryData (setQueryData qc k updater) k' = (if k' = k then Some d else getQueryData qc k')"
proof -
  assume u: "updater (getQueryData qc k) = Some d"
  show ?thesis
  proof (cases "list_ex (\<lambda>q. queryKey q = k) qc")
    case True
    have "getQueryData (map (\<lambda>q. if queryKey q = k then q\<lparr>qdata := Some d\<rparr> else q) xs) k'
            = (if k' = k \<and> list_ex (\<lambda>q. queryKey q = k) xs then Some d else getQueryData xs k')"
      for xs :: "'a query list"
      by (induction xs) (auto simp: getQueryData_def)
    with True u show ?thesis by (simp add: setQueryData_def)
  next
    case False
    have "getQueryData (xs @ [\<lparr>queryKey = k, qdata = Some d, isFetching = False\<rparr>]) k'
            = (if k' = k then Some d else getQueryData xs k')"
      if "\<not> list_ex (\<lambda>q. queryKey q = k) xs" for xs :: "'a query list"
      using that by (induction xs) (auto simp: getQueryData_def)
    with False u show ?thesis by (simp add: setQueryData_def)
  qed
qed

lemma setQueryData_not_fetching:
  assumes "\<forall>q \<in> set qc. matches f q \<longrightarrow> \<not> isFetching q"
  shows "\<forall>q \<in> set (setQueryData qc k updater). matches f q \<longrightarrow> \<not> isFetching q"
  using assms
  by (auto simp: setQueryData_def matches_def split: option.splits if_splits)

lemma cancelQueries_not_fetching:
  "\<forall>q \<in> set (cancelQueries qc f). matches f q \<longrightarrow> \<not> isFetching q"
  by (auto simp: cancelQueries_def matches_def split: if_splits)

text \<open>
  The start of a photo mutation: after \<open>onMutate\<close> no query of the
  inspection's photos has a fetch in flight, and the snapshot in the context is the data
  the query had before the optimistic transform.
\<close>

lemma upload_onMutate_cancels_and_snapshots:
  "(\<forall>q \<in> set (fst (uploadPhoto_onMutate qc v)).
       matches (photos_key (up_inspection_id v)) q \<longrightarrow> \<not> isFetching q)
   \<and> fst (snd (uploadPhoto_onMutate qc v)) = getQueryData qc (photos_key (up_inspection_id v))"
  using setQueryData_not_fetching [OF cancelQueries_not_fetching]
  by (simp add: uploadPhoto_onMutate_def Let_def getQueryData_cancel)

text \<open>
  The rollback of the photo mutations: when the query of the inspection's
  photos has data at the start, the snapshot is that data, and after the optimistic
  transform and the rollback every query has the data it had before the mutation.
\<close>

lemma restore_after_transform:
  assumes "getQueryData qc (photos_key i) = Some ps" and "\<And>old. transform old \<noteq> None"
  shows "getQueryData
           (restore_previousPhotos (setQueryData (cancelQueries qc (photos_key i)) (photos_key i) transform)
              i (getQueryData (cancelQueries qc (photos_key i)) (photos_key i))) k
         = getQueryData qc k"
proof -
  let ?qc1 = "cancelQueries qc (photos_key i)"
  obtain d where d: "transform (getQueryData ?qc1 (photos_key i)) = Some d"
    using assms(2) by blast
  have opt: "getQueryData (setQueryData ?qc1 (photos_key i) transform) k'
      = (if k' = photos_key i then Some d else getQueryData ?qc1 k')" for k'
    using d by (rule getQueryData_set)
  have undo: "getQueryData (setQueryData qc' (photos_key i) (\<lambda>old. Some ps)) k'
      = (if k' = photos_key i then Some ps else getQueryData qc' k')" for k' qc'
    by (rule getQueryData_set) simp
  show ?thesis
    using assms(1) by (simp add: restore_previousPhotos_def getQueryData_cancel opt undo)
qed

lemma upload_rollback_exact:
  assumes "getQueryData qc (photos_key (up_inspection_id v)) = Some ps"
  shows "getQueryData (uploadPhoto_onError (fst (uploadPhoto_onMutate qc v)) v
                         (snd (uploadPhoto_onMutate qc v))) k = getQueryData qc k"
  using restore_after_transform [OF assms, of "\<lambda>old. Some (or_empty old @ [new_photo v (optimistic_uuid v)])" k]
  by (simp add: uploadPhoto_onError_def uploadPhoto_onMutate_def Let_def)

lemma delete_rollback_exact:
  assumes "getQueryData qc (photos_key (js_str (inspection_id photo))) = Some ps"
  shows "getQueryData (deletePhoto_onError (fst (deletePhoto_onMutate qc photo)) photo
                         (snd (deletePhoto_onMutate qc photo))) k = getQueryData qc k"
  using restore_after_transform [OF assms, of "\<lambda>old. Some (filter (\<lambda>p. photo_id p \<noteq> photo_id photo) (or_empty old))" k]
  by (simp add: deletePhoto_onError_def deletePhoto_onMutate_def Let_def)

lemma caption_rollback_exact:
  assumes "getQueryData qc (photos_key i) = Some ps"
  shows "getQueryData (updateCaption_onError (fst (updateCaption_onMutate qc (p, cap, i))) (p, cap, i)
                         (snd (updateCaption_onMutate qc (p, cap, i)))) k = getQueryData qc k"
  using restore_after_transform [OF assms, of "\<lambda>old. Some (map (\<lambda>x. if photo_id x = p then x\<lparr>caption := Some cap\<rparr> else x) (or_empty old))" k]
  by (simp add: updateCaption_onError_def updateCaption_onMutate_def Let_def)

text \<open>A mutation whose remote write fails surfaces the error to the caller.\<close>

lemma mutateAsync_surfaces_error:
  "fst (mutationFn s v) = Rejected e \<Longrightarrow>
     fst (mutateAsync onMutate mutationFn onSuccess onError qc s v) = Rejected e"
  by (cases "mutationFn s v") (simp add: mutateAsync_def split: prod.splits)


text \<open>
  C2, where the code departs from it. The query of the inspection's photos has no data
  yet (its first fetch is in flight) when a photo is uploaded, and the remote write of the
  photo record fails. The error reaches the caller, the fetch has been cancelled, but the
  snapshot is undefined, the rollback is skipped, and the query keeps the optimistic photo
  instead of being restored to its state before the mutation.
\<close>

theorem upload_rollback_skipped_without_data:
  "fst (useUploadPhoto (\<lambda>c. c = KvSet ''photo-data:i1:srv'') healthy 0
         [\<lparr>queryKey = [''inspection-photos'', ''i1''], qdata = None, isFetching = True\<rparr>]
         ([], \<lparr>contents = [], calls = []\<rparr>)
         \<lparr>up_inspection_id = ''i1'', up_dataUrl = ''data:x'', up_caption = None,
           up_order_index = 0, optimistic_uuid = ''tmp'', server_uuid = ''srv''\<rparr>)
     = Rejected ApiRequestFailed
   \<and> fst (snd (useUploadPhoto (\<lambda>c. c = KvSet ''photo-data:i1:srv'') healthy 0
         [\<lparr>queryKey = [''inspection-photos'', ''i1''], qdata = None, isFetching = True\<rparr>]
         ([], \<lparr>contents = [], calls = []\<rparr>)
         \<lparr>up_inspection_id = ''i1'', up_dataUrl = ''data:x'', up_caption = None,
           up_order_index = 0, optimistic_uuid = ''tmp'', server_uuid = ''srv''\<rparr>))
     = [\<lparr>queryKey = [''inspection-photos'', ''i1''],
          qdata = Some [\<lparr>photo_id = ''tmp'', inspection_id = Some ''i1'',
                          storage_key = Some ''data:x'', caption = None,
                          order_index = Some 0\<rparr>],
          isFetching = False\<rparr>]"
  by (simp add: useUploadPhoto_def mutateAsync_def uploadPhoto_onMutate_def
      uploadPhoto_onError_def uploadPhoto_mutationFn_def restore_previousPhotos_def
      new_photo_def or_null_def or_empty_def photos_key_def getQueryData_def setQueryData_def
      cancelQueries_def matches_def kvStore_get_def kvStore_set_def PhotoCache_set_def
      getTotalSize_def cleanOldest_def init_def healthy_def Let_def KEYS_photoIndex_def
      KEYS_photoData_def mk_key_def blob_size_def total_size_def maxSizeBytes_def
      MAX_CACHE_SIZE_MB_def)

lemma getQueryData_set_any:
  "getQueryData (setQueryData qc k updater) k' =
     (if k' = k then (case updater (getQueryData qc k) of
                        None \<Rightarrow> getQueryData qc k | Some d \<Rightarrow> Some d)
      else getQueryData qc k')"
proof (cases "updater (getQueryData qc k)")
  case None
  then show ?thesis by (simp add: setQueryData_def)
next
  case (Some d)
  then show ?thesis using getQueryData_set [of updater qc k d k'] by simp
qed

lemma getQueryData_setQueries:
  "distinct ks \<Longrightarrow>
     getQueryData (fold (\<lambda>k c. setQueryData c k updater) ks qc) k' =
       (if k' \<in> set ks then (case updater (getQueryData qc k') of
                                None \<Rightarrow> getQueryData qc k' | Some d \<Rightarrow> Some d)
        else getQueryData qc k')"
  by (induction ks arbitrary: qc) (auto simp: getQueryData_set_any split: option.splits)

lemma getQueryData_restore:
  "distinct (map fst kds) \<Longrightarrow>
     getQueryData (fold (\<lambda>(k, d) c. setQueryData c k (\<lambda>old. d)) kds qc) k' =
       (case map_of kds k' of Some (Some d) \<Rightarrow> Some d | _ \<Rightarrow> getQueryData qc k')"
proof (induction kds arbitrary: qc)
  case Nil
  then show ?case by simp
next
  case (Cons kd kds)
  obtain k d where kd: "kd = (k, d)" by (cases kd)
  from Cons.prems kd have "map_of kds k = None"
    by (simp add: map_of_eq_None_iff)
  with Cons kd show ?case
    by (auto simp: getQueryData_set_any split: option.splits)
qed

lemma map_of_snapshot:
  "map_of (map (\<lambda>q. (queryKey q, qdata q)) qs) k =
     (if k \<in> queryKey ` set qs then Some (getQueryData qs k) else None)"
  by (induction qs) (auto simp: getQueryData_def)

lemma getQueryData_filter:
  "P k \<Longrightarrow> getQueryData (filter (\<lambda>q. P (queryKey q)) qc) k = getQueryData qc k"
  by (induction qc) (auto simp: getQueryData_def)

text \<open>
  The rollback of the item update: its optimistic transform leaves a query without data alone,
  and after the rollback every query has the data it had before the mutation.
\<close>

lemma updateItem_rollback_exact:
  assumes "distinct (map queryKey qc)"
  shows "getQueryData (updateItem_onError (fst (updateItem_onMutate qc v)) v
                         (snd (updateItem_onMutate qc v))) k = getQueryData qc k"
proof -
  let ?f = "[''inspection'']"
  let ?P = "\<lambda>key. take (length ?f) key = ?f"
  let ?qc1 = "cancelQueries qc ?f"
  let ?ms = "filter (matches ?f) ?qc1"
  let ?u = "updateItem_updater (fst v) (snd v)"
  have m: "matches ?f = (\<lambda>q :: InspectionData query. ?P (queryKey q))"
    by (simp add: matches_def fun_eq_iff)
  have keys: "map queryKey ?qc1 = map queryKey qc"
    by (simp add: cancelQueries_def comp_def if_distrib [of queryKey] cong: if_cong)
  have d1: "distinct (map queryKey ?ms)"
    using assms keys distinct_map_filter [of queryKey ?qc1 "matches ?f"] by simp
  have snap: "map_of (getQueriesData ?qc1 ?f) k =
      (if k \<in> queryKey ` set ?ms then Some (getQueryData qc k) else None)"
  proof (cases "k \<in> queryKey ` set ?ms")
    case True
    then have "?P k" by (auto simp: m)
    then have "getQueryData ?ms k = getQueryData ?qc1 k"
      unfolding m by (rule getQueryData_filter)
    with True show ?thesis
      by (simp add: getQueriesData_def map_of_snapshot getQueryData_cancel)
  next
    case False
    then show ?thesis by (simp add: getQueriesData_def map_of_snapshot)
  qed
  have u: "?u None = None" "\<And>d. ?u (Some d) \<noteq> None"
    by (simp_all add: updateItem_updater_def split: option.splits)
  have opt: "getQueryData (setQueriesData ?qc1 ?f ?u) k =
      (if k \<in> queryKey ` set ?ms then ?u (getQueryData qc k) else getQueryData qc k)"
    using u(2) [of "the (getQueryData qc k)"]
    by (cases "getQueryData qc k")
      (auto simp: setQueriesData_def getQueryData_setQueries [OF d1] getQueryData_cancel u(1)
        split: option.splits)
  have "distinct (map fst (getQueriesData ?qc1 ?f))"
    using d1 by (simp add: getQueriesData_def comp_def)
  from getQueryData_restore [OF this, of "setQueriesData ?qc1 ?f ?u" k]
  show ?thesis
    by (auto simp: updateItem_onError_def updateItem_onMutate_def Let_def snap opt u(1)
        split: option.splits)
qed

section \<open>Properties of the debounced edits\<close>

text \<open>Distinct pairs of item and field have distinct field keys, hence timers of their own.\<close>

lemma fieldKey_inj: "fieldKey i f = fieldKey j g \<longleftrightarrow> i = j \<and> f = g"
proof
  assume eq: "fieldKey i f = fieldKey j g"
  have "f = g"
  proof (rule ccontr)
    assume "f \<noteq> g"
    then have "last (fieldKey i f) \<noteq> last (fieldKey j g)"
      by (cases f; cases g) (simp_all add: fieldKey_def field_name_def)
    with eq show False by simp
  qed
  with eq show "i = j \<and> f = g" by (simp add: fieldKey_def)
qed simp




















end
